theory Spec2Isabelle
  imports Main "HOL-Library.Sublist" "HOL-Library.AList"
begin

section \<open>Python strings\<close>

text \<open>
  A Python \<open>str\<close> is a sequence of Unicode code points, and \<open>len\<close> counts code points.
  A string is therefore modelled as a list of code points (natural numbers). ASCII
  literals of the source are written \<open>ascii ''...''\<close>; the accented letters, typographic
  apostrophes and emoji of the source's messages are written as their code points.
\<close>

type_synonym str = "nat list"

definition ascii :: "string \<Rightarrow> str" where
  "ascii cs = map of_char cs"

text \<open>\<open>str.isspace\<close> for one code point: the characters \<open>str.strip()\<close> removes.\<close>

definition isspace :: "nat \<Rightarrow> bool" where
  "isspace c \<longleftrightarrow>
     (9 \<le> c \<and> c \<le> 13) \<or> (28 \<le> c \<and> c \<le> 32) \<or> c = 133 \<or> c = 160 \<or> c = 5760 \<or>
     (8192 \<le> c \<and> c \<le> 8202) \<or> c = 8232 \<or> c = 8233 \<or> c = 8239 \<or> c = 8287 \<or> c = 12288"

definition strip :: "str \<Rightarrow> str" where
  "strip s = rev (dropWhile isspace (rev (dropWhile isspace s)))"

text \<open>\<open>sep.join(xs)\<close>.\<close>

fun join :: "str \<Rightarrow> str list \<Rightarrow> str" where
  "join sep [] = []"
| "join sep [x] = x"
| "join sep (x # y # ys) = x @ sep @ join sep (y # ys)"

text \<open>\<open>needle in hay\<close> on strings.\<close>

definition contains :: "str \<Rightarrow> str \<Rightarrow> bool" where
  "contains needle hay \<longleftrightarrow> sublist needle hay"

text \<open>Truthiness of an optional string: \<open>None\<close> and \<open>""\<close> are falsy.\<close>

fun truthy :: "str option \<Rightarrow> bool" where
  "truthy None = False"
| "truthy (Some s) = (s \<noteq> [])"

text \<open>\<open>str(n)\<close> for a non-negative integer: its decimal digits.\<close>

fun digits :: "nat \<Rightarrow> nat \<Rightarrow> str" where
  "digits 0 n = []"
| "digits (Suc fuel) n =
     (if n < 10 then [48 + n] else digits fuel (n div 10) @ [48 + n mod 10])"

definition str_of_nat :: "nat \<Rightarrow> str" where
  "str_of_nat n = digits (Suc n) n"

section \<open>Status messages\<close>

text \<open>
  The values a \<open>result\<close> dictionary holds: strings, booleans and integers.
\<close>

datatype jv = JStr str | JBool bool | JInt nat

text \<open>
  \<open>send_status_update\<close> builds \<open>{"type": "status_update", "data": {status, message,
  error, result}}\<close>. The timestamp that \<open>broadcast_to_job\<close> stamps on the message
  before sending is left out: nothing reads it.
\<close>

record status_data =
  upd_status :: str
  upd_message :: "str option"
  upd_error :: "str option"
  upd_result :: "(str \<times> jv) list option"

record ws_message =
  msg_type :: str
  msg_data :: status_data

definition status_update ::
  "str \<Rightarrow> str option \<Rightarrow> str option \<Rightarrow> (str \<times> jv) list option \<Rightarrow> ws_message" where
  "status_update st m e r =
     \<lparr>msg_type = ascii ''status_update'',
      msg_data = \<lparr>upd_status = st, upd_message = m, upd_error = e, upd_result = r\<rparr>\<rparr>"

section \<open>WebSocketManager\<close>

text \<open>
  \<open>active_connections: Dict[str, Set[WebSocket]]\<close>. A Python set is modelled as a
  list without duplicates, its order being the (arbitrary) iteration order: \<open>add\<close> is
  \<open>List.insert\<close>, \<open>discard\<close> is \<open>removeAll\<close>.
\<close>

type_synonym 'ws connections = "str \<rightharpoonup> 'ws list"

definition connect :: "'ws \<Rightarrow> str \<Rightarrow> 'ws connections \<Rightarrow> 'ws connections" where
  "connect websocket job_id conns =
     conns(job_id \<mapsto> List.insert websocket (case conns job_id of None \<Rightarrow> [] | Some S \<Rightarrow> S))"

definition disconnect :: "'ws \<Rightarrow> str \<Rightarrow> 'ws connections \<Rightarrow> 'ws connections" where
  "disconnect websocket job_id conns =
     (case conns job_id of
        None \<Rightarrow> conns
      | Some S \<Rightarrow>
          (let S' = removeAll websocket S
           in if S' = [] then conns(job_id := None) else conns(job_id \<mapsto> S')))"

text \<open>
  \<open>connection.send_text\<close> either returns or raises an \<open>Exception\<close>; which of the two
  happens for a connection is a parameter of the model.
\<close>

datatype send_outcome = Sent | Raised str

text \<open>
  \<open>broadcast_to_job\<close> iterates over the set \<open>self.active_connections[job_id]\<close> itself,
  and awaits \<open>send_text\<close> inside the loop. While a send is awaited other tasks run, and
  they may call \<open>connect\<close> and \<open>disconnect\<close>: a \<open>websocket_endpoint\<close> that accepts a
  client or sees one go, or the clean-up of another broadcast. What the other tasks do
  while the send to a given connection is awaited is a parameter of the model.
\<close>

datatype 'ws hub_op = Connect 'ws str | Disconnect 'ws str

fun apply_op :: "'ws hub_op \<Rightarrow> 'ws connections \<Rightarrow> 'ws connections" where
  "apply_op (Connect websocket job_id) conns = connect websocket job_id conns"
| "apply_op (Disconnect websocket job_id) conns = disconnect websocket job_id conns"

text \<open>
  The set object under iteration stays the one the loop started with. It is the set
  registered for the job until a \<open>disconnect\<close> empties it and deletes the job's key;
  from then on the object is empty and no longer registered (a later \<open>connect\<close> puts a
  new set under the key). The state of the loop is the dictionary together with the
  mark of that detachment.
\<close>

fun interfere :: "str \<Rightarrow> 'ws hub_op list \<Rightarrow> 'ws connections \<times> bool \<Rightarrow> 'ws connections \<times> bool" where
  "interfere job_id [] live = live"
| "interfere job_id (operation # rest) (conns, detached) =
     interfere job_id rest
       (apply_op operation conns, detached \<or> apply_op operation conns job_id = None)"

definition iterated :: "str \<Rightarrow> 'ws connections \<times> bool \<Rightarrow> 'ws list" where
  "iterated job_id live =
     (case live of
        (conns, detached) \<Rightarrow>
          (if detached then [] else (case conns job_id of None \<Rightarrow> [] | Some S \<Rightarrow> S)))"

text \<open>
  Each step of a \<open>for\<close> loop over a set first compares the size of the set with its size
  when the loop began and raises \<open>RuntimeError: Set changed size during iteration\<close> if
  they differ, also at the step that would end the loop. The \<open>for\<close> statement of
  \<open>broadcast_to_job\<close> is outside the \<open>try\<close>, so this error leaves the function.
\<close>

datatype loop_error = RuntimeError

text \<open>
  The sending loop: \<open>used\<close> is the size of the set when the loop began and \<open>remaining\<close>
  the number of elements not yet visited, so that the next element is the one at
  position \<open>used - remaining\<close> (within range, the size having just been checked). The
  accumulator holds the connections a send was attempted to, those the message was sent
  to, and the set \<open>disconnected\<close>. When other tasks change the set without changing its
  size, the elements the real iterator still visits depend on the hash table; the model
  goes on by position.
\<close>

fun send_loop ::
  "('ws \<Rightarrow> send_outcome) \<Rightarrow> ('ws \<Rightarrow> 'ws hub_op list) \<Rightarrow> str \<Rightarrow> nat \<Rightarrow> nat \<Rightarrow>
   'ws connections \<times> bool \<Rightarrow> 'ws list \<times> 'ws list \<times> 'ws list \<Rightarrow>
   loop_error option \<times> 'ws connections \<times> 'ws list \<times> 'ws list \<times> 'ws list" where
  "send_loop send_text others job_id used 0 live acc =
     (if length (iterated job_id live) \<noteq> used then (Some RuntimeError, fst live, acc)
      else (None, fst live, acc))"
| "send_loop send_text others job_id used (Suc remaining) live (attempts, sent, disconnected) =
     (if length (iterated job_id live) \<noteq> used
      then (Some RuntimeError, fst live, attempts, sent, disconnected)
      else
        (let connection = iterated job_id live ! (used - Suc remaining);
             live' = interfere job_id (others connection) live
         in case send_text connection of
              Sent \<Rightarrow>
                send_loop send_text others job_id used remaining live'
                  (attempts @ [connection], sent @ [connection], disconnected)
            | Raised e \<Rightarrow>
                send_loop send_text others job_id used remaining live'
                  (attempts @ [connection], sent, List.insert connection disconnected)))"

text \<open>
  What a call of \<open>broadcast_to_job\<close> leaves behind: the registrations, the connections
  a send was attempted to, the messages delivered, and the error the call raised, if any.
  When the loop raises, the clean-up of the disconnected clients is not reached.
\<close>

record 'ws broadcast_result =
  conns_after :: "'ws connections"
  attempted :: "'ws list"
  delivered :: "('ws \<times> ws_message) list"
  failure :: "loop_error option"

definition broadcast_to_job ::
  "('ws \<Rightarrow> send_outcome) \<Rightarrow> ('ws \<Rightarrow> 'ws hub_op list) \<Rightarrow> str \<Rightarrow> ws_message \<Rightarrow>
   'ws connections \<Rightarrow> 'ws broadcast_result" where
  "broadcast_to_job send_text others job_id message conns =
     (case conns job_id of
        None \<Rightarrow> \<lparr>conns_after = conns, attempted = [], delivered = [], failure = None\<rparr>
      | Some S \<Rightarrow>
          (case send_loop send_text others job_id (length S) (length S) (conns, False) ([], [], []) of
             (Some err, conns', attempts, sent, disconnected) \<Rightarrow>
               \<lparr>conns_after = conns', attempted = attempts,
                delivered = map (\<lambda>connection. (connection, message)) sent,
                failure = Some err\<rparr>
           | (None, conns', attempts, sent, disconnected) \<Rightarrow>
               \<lparr>conns_after = fold (\<lambda>connection h. disconnect connection job_id h) disconnected conns',
                attempted = attempts,
                delivered = map (\<lambda>connection. (connection, message)) sent,
                failure = None\<rparr>))"

definition send_status_update ::
  "('ws \<Rightarrow> send_outcome) \<Rightarrow> ('ws \<Rightarrow> 'ws hub_op list) \<Rightarrow> str \<Rightarrow> str \<Rightarrow> str option \<Rightarrow>
   str option \<Rightarrow> (str \<times> jv) list option \<Rightarrow> 'ws connections \<Rightarrow> 'ws broadcast_result" where
  "send_status_update send_text others job_id st m e r conns =
     broadcast_to_job send_text others job_id (status_update st m e r) conns"

text \<open>The registration invariant: no job id is mapped to an empty set.\<close>

definition no_empty_sets :: "'ws connections \<Rightarrow> bool" where
  "no_empty_sets conns \<longleftrightarrow> [] \<notin> ran conns"

section \<open>Job registry and research driver (application.py)\<close>

definition status_pending :: str where "status_pending = (ascii ''pending'')"
definition status_processing :: str where "status_processing = (ascii ''processing'')"
definition status_completed :: str where "status_completed = (ascii ''completed'')"
definition status_failed :: str where "status_failed = (ascii ''failed'')"

text \<open>
  The calls of \<open>send_status_update\<close> a piece of code makes, in order: the job id and
  the message handed to \<open>broadcast_to_job\<close>.
\<close>

type_synonym updates = "(str \<times> ws_message) list"

text \<open>
  An entry of \<open>job_status\<close>. \<open>job_status\<close> is a \<open>defaultdict\<close>: reading a missing key
  with \<open>job_status[job_id]\<close> inserts the default entry, \<open>job_id in job_status\<close> does not.
\<close>

record job_record =
  j_status :: str
  j_result :: "(str \<times> jv) list option"
  j_error :: "str option"
  j_debug_info :: "str list"
  j_company :: "str option"
  j_report :: "str option"
  j_last_update :: str

definition default_job :: "str \<Rightarrow> job_record" where
  "default_job now =
     \<lparr>j_status = status_pending, j_result = None, j_error = None, j_debug_info = [],
      j_company = None, j_report = None, j_last_update = now\<rparr>"

record research_request =
  rq_company :: str
  rq_company_url :: "str option"
  rq_industry :: "str option"
  rq_hq_location :: "str option"

text \<open>
  \<open>process_research\<close> reads three entries of the dictionaries that \<open>graph.run\<close>
  yields: \<open>report\<close>, \<open>editor\<close> (a dictionary, of which the entry \<open>report\<close> is read)
  and \<open>error\<close>. A yielded dictionary is represented by these entries, \<open>None\<close> for an
  absent key; \<open>state.update(s)\<close> overrides the entries present in \<open>s\<close>.
\<close>

record yielded =
  y_report :: "str option"
  y_editor :: "str option option"
  y_error :: "str option"

definition empty_state :: yielded where
  "empty_state = \<lparr>y_report = None, y_editor = None, y_error = None\<rparr>"

definition state_update :: "yielded \<Rightarrow> yielded \<Rightarrow> yielded" where
  "state_update state s =
     \<lparr>y_report = (case y_report s of None \<Rightarrow> y_report state | Some r \<Rightarrow> Some r),
      y_editor = (case y_editor s of None \<Rightarrow> y_editor state | Some ed \<Rightarrow> Some ed),
      y_error = (case y_error s of None \<Rightarrow> y_error state | Some e \<Rightarrow> Some e)\<rparr>"

text \<open>
  What running the graph does, as \<open>process_research\<close> sees it: the dictionaries it
  yields, the status updates its nodes send meanwhile, and the exception it raises, if
  any (\<open>str(e)\<close>). Constructing the graph may raise as well: no dictionary is yielded then.
\<close>

record graph_run =
  yields :: "yielded list"
  graph_updates :: updates
  raised :: "str option"

text \<open>\<open>state.get('report') or (state.get('editor') or {}).get('report')\<close>.\<close>

definition report_content :: "yielded \<Rightarrow> str option" where
  "report_content state =
     (if truthy (y_report state) then y_report state
      else (case y_editor state of None \<Rightarrow> None | Some ed \<Rightarrow> ed))"

text \<open>
  \<open>process_research\<close>, without a MongoDB service (\<open>mongodb = None\<close>, as when
  \<open>MONGODB_URI\<close> is not set). \<open>now\<close> is \<open>datetime.now().isoformat()\<close>.
\<close>

definition process_research ::
  "str \<Rightarrow> str \<Rightarrow> research_request \<Rightarrow> graph_run \<Rightarrow> (str \<rightharpoonup> job_record) \<Rightarrow>
   (str \<rightharpoonup> job_record) \<times> updates" where
  "process_research now job_id data graph job_status =
     (let started =
            (job_id, status_update status_processing (Some (ascii ''Starting research'')) None None)
              # graph_updates graph
      in case raised graph of
           Some e \<Rightarrow>
             (job_status,
              started @
                [(job_id, status_update status_failed (Some ((ascii ''La recherche a '' @ [0xE9] @ ascii ''chou'' @ [0xE9] @ ascii '' : '') @ e))
                            (Some e) None)])
         | None \<Rightarrow>
             (let state = fold (\<lambda>s state. state_update state s) (yields graph) empty_state
              in case report_content state of
                   Some (c # cs) \<Rightarrow>
                     (job_status(job_id \<mapsto>
                        (case job_status job_id of None \<Rightarrow> default_job now | Some r \<Rightarrow> r)
                          \<lparr>j_status := status_completed,
                           j_report := Some (c # cs),
                           j_company := Some (rq_company data),
                           j_last_update := now\<rparr>),
                      started @
                        [(job_id, status_update status_completed
                                    (Some (ascii ''Recherche termin'' @ [0xE9] @ ascii ''e avec succ'' @ [0xE8] @ ascii ''s'')) None
                                    (Some [((ascii ''report''), JStr (c # cs)),
                                           ((ascii ''company''), JStr (rq_company data))]))])
                 | _ \<Rightarrow>
                     (let error_message =
                            (case y_error state of
                               Some (c # cs) \<Rightarrow> (ascii ''Erreur : '') @ (c # cs)
                             | _ \<Rightarrow> (ascii ''Aucun rapport trouv'' @ [0xE9]))
                      in (job_status,
                          started @
                            [(job_id, status_update status_failed
                                        (Some (ascii ''La recherche s'' @ [0x27] @ ascii ''est termin'' @ [0xE9] @ ascii ''e mais aucun rapport n'' @ [0x27] @ ascii ''a '' @ [0xE9] @ ascii ''t'' @ [0xE9] @ ascii '' g'' @ [0xE9] @ ascii ''n'' @ [0xE9] @ ascii ''r'' @ [0xE9]))
                                        (Some error_message) None)]))))"

text \<open>
  The successive contents of \<open>job_status\<close> in the course of \<open>process_research\<close>: as the
  run finds it, after \<open>job_status[job_id]\<close> has inserted the default entry for a missing
  key, and after \<open>update\<close> has written the entry. Only the branch that found a report
  touches \<open>job_status\<close>.
\<close>

definition registry_history ::
  "str \<Rightarrow> str \<Rightarrow> research_request \<Rightarrow> graph_run \<Rightarrow> (str \<rightharpoonup> job_record) \<Rightarrow>
   (str \<rightharpoonup> job_record) list" where
  "registry_history now job_id data graph job_status =
     (case raised graph of
        Some e \<Rightarrow> [job_status]
      | None \<Rightarrow>
          (case report_content (fold (\<lambda>s state. state_update state s) (yields graph) empty_state) of
             Some (c # cs) \<Rightarrow>
               (let entry = (case job_status job_id of None \<Rightarrow> default_job now | Some r \<Rightarrow> r)
                in [job_status,
                    job_status(job_id \<mapsto> entry),
                    job_status(job_id \<mapsto>
                      entry\<lparr>j_status := status_completed,
                            j_report := Some (c # cs),
                            j_company := Some (rq_company data),
                            j_last_update := now\<rparr>)])
           | _ \<Rightarrow> [job_status]))"

text \<open>
  \<open>websocket_endpoint\<close> up to its receive loop: the connection is registered, and if
  the job has an entry in \<open>job_status\<close> its status is sent to the job's connections. An
  exception of that broadcast is caught by the endpoint, which then unregisters the
  connection; the result keeps the error the broadcast raised.
\<close>

definition websocket_endpoint ::
  "('ws \<Rightarrow> send_outcome) \<Rightarrow> ('ws \<Rightarrow> 'ws hub_op list) \<Rightarrow> 'ws \<Rightarrow> str \<Rightarrow>
   (str \<rightharpoonup> job_record) \<Rightarrow> 'ws connections \<Rightarrow> 'ws broadcast_result" where
  "websocket_endpoint send_text others websocket job_id job_status conns =
     (let conns1 = connect websocket job_id conns
      in case job_status job_id of
           None \<Rightarrow> \<lparr>conns_after = conns1, attempted = [], delivered = [], failure = None\<rparr>
         | Some status \<Rightarrow>
             (let r = send_status_update send_text others job_id (j_status status)
                        (Some (ascii ''Connected to status stream'')) (j_error status)
                        (j_result status) conns1
              in case failure r of
                   None \<Rightarrow> r
                 | Some err \<Rightarrow> r\<lparr>conns_after := disconnect websocket job_id (conns_after r)\<rparr>))"

section \<open>Pipeline state\<close>

text \<open>
  The pipeline state is a dictionary threaded through the nodes. It is modelled as a
  record of the keys the nodes below read or write; an optional field is \<open>None\<close> when
  the key is absent, a list or dictionary field is empty when the key is absent. The
  documents of a curated category are kept as pairs of URL and text: the nodes below
  only test the collection for emptiness and count it.
\<close>

type_synonym docs = "(str \<times> str) list"

record research_state =
  rs_company :: "str option"
  rs_company_url :: "str option"
  rs_hq_location :: "str option"
  rs_industry :: "str option"
  rs_websocket_manager :: bool
  rs_job_id :: "str option"
  rs_messages :: "str list"
  rs_site_scrape :: "(str \<times> str) list"
  rs_error :: "str option"
  rs_curated_financial_data :: docs
  rs_curated_news_data :: docs
  rs_curated_industry_data :: docs
  rs_curated_company_data :: docs
  rs_financial_briefing :: "str option"
  rs_news_briefing :: "str option"
  rs_industry_briefing :: "str option"
  rs_company_briefing :: "str option"
  rs_briefings :: "(str \<times> str) list"
  rs_report :: "str option"
  rs_status :: "str option"
  rs_editor :: "str option option"

text \<open>
  The guard around every status update of a node:
  \<open>if websocket_manager := state.get('websocket_manager'): if job_id := state.get('job_id'): ...\<close>
\<close>

definition notify :: "bool \<Rightarrow> str option \<Rightarrow> ws_message \<Rightarrow> updates" where
  "notify websocket_manager job_id m =
     (case job_id of
        Some (c # cs) \<Rightarrow> (if websocket_manager then [(c # cs, m)] else [])
      | _ \<Rightarrow> [])"

text \<open>The top-level entries of a state that \<open>process_research\<close> reads.\<close>

definition as_yielded :: "research_state \<Rightarrow> yielded" where
  "as_yielded state =
     \<lparr>y_report = rs_report state, y_editor = rs_editor state, y_error = rs_error state\<rparr>"

section \<open>GroundingNode (grounding.py)\<close>








section \<open>Briefing (briefing.py)\<close>

definition status_briefing_start :: str where "status_briefing_start = (ascii ''briefing_start'')"
definition status_briefing_complete :: str where "status_briefing_complete = (ascii ''briefing_complete'')"

text \<open>
  The four briefing categories. \<open>curated_data\<close> reads \<open>state.get('curated_..._data', {})\<close>,
  \<open>set_briefing\<close> writes \<open>state[briefing_key]\<close> and \<open>get_briefing\<close> reads it.
\<close>

datatype category = Financial | News | Industry | Company

fun category_name :: "category \<Rightarrow> str" where
  "category_name Financial = (ascii ''financial'')"
| "category_name News = (ascii ''news'')"
| "category_name Industry = (ascii ''industry'')"
| "category_name Company = (ascii ''company'')"

fun curated_data :: "category \<Rightarrow> research_state \<Rightarrow> docs" where
  "curated_data Financial state = rs_curated_financial_data state"
| "curated_data News state = rs_curated_news_data state"
| "curated_data Industry state = rs_curated_industry_data state"
| "curated_data Company state = rs_curated_company_data state"

fun set_briefing :: "category \<Rightarrow> str \<Rightarrow> research_state \<Rightarrow> research_state" where
  "set_briefing Financial v state = state\<lparr>rs_financial_briefing := Some v\<rparr>"
| "set_briefing News v state = state\<lparr>rs_news_briefing := Some v\<rparr>"
| "set_briefing Industry v state = state\<lparr>rs_industry_briefing := Some v\<rparr>"
| "set_briefing Company v state = state\<lparr>rs_company_briefing := Some v\<rparr>"

fun get_briefing :: "category \<Rightarrow> research_state \<Rightarrow> str option" where
  "get_briefing Financial state = rs_financial_briefing state"
| "get_briefing News state = rs_news_briefing state"
| "get_briefing Industry state = rs_industry_briefing state"
| "get_briefing Company state = rs_company_briefing state"

text \<open>
  \<open>generate_category_briefing\<close>. The generative call either returns the response text
  or raises inside the \<open>try\<close> block (\<open>Inl\<close>); the prompt built from the documents does
  not influence the control flow and is left out, the documents being taken as
  well-formed (their scores convert to floats). The result is the \<open>content\<close> entry.
\<close>

definition generate_category_briefing ::
  "docs \<Rightarrow> category \<Rightarrow> bool \<Rightarrow> str option \<Rightarrow> str + str \<Rightarrow> str \<times> updates" where
  "generate_category_briefing documents category websocket_manager job_id response =
     (let ev0 = notify websocket_manager job_id
                  (status_update status_briefing_start
                     (Some ((ascii ''G'' @ [0xE9] @ ascii ''n'' @ [0xE9] @ ascii ''ration du briefing '') @ category_name category)) None
                     (Some [((ascii ''step''), JStr (ascii ''Briefing'')),
                            ((ascii ''category''), JStr (category_name category)),
                            ((ascii ''total_docs''), JInt (length documents))]))
      in case response of
           Inr text \<Rightarrow>
             (let content = strip text
              in if content = [] then ([], ev0)
                 else (content,
                       ev0 @ notify websocket_manager job_id
                         (status_update status_briefing_complete
                            (Some ((ascii ''Briefing '') @ category_name category @ (ascii '' compl'' @ [0xE9] @ ascii ''t'' @ [0xE9]))) None
                            (Some [((ascii ''step''), JStr (ascii ''Briefing'')),
                                   ((ascii ''category''), JStr (category_name category))]))))
         | Inl e \<Rightarrow> ([], ev0))"

text \<open>
  The first loop of \<open>create_briefings\<close>: a category with curated data becomes a task,
  a category without gets the empty briefing.
\<close>

fun collect_tasks ::
  "category list \<Rightarrow> research_state \<Rightarrow> category list \<Rightarrow> research_state \<times> category list" where
  "collect_tasks [] state briefing_tasks = (state, briefing_tasks)"
| "collect_tasks (cat # rest) state briefing_tasks =
     (if curated_data cat state \<noteq> []
      then collect_tasks rest state (briefing_tasks @ [cat])
      else collect_tasks rest (set_briefing cat [] state) briefing_tasks)"

text \<open>
  \<open>process_briefing\<close>, the body guarded by the semaphore, on the state, the
  \<open>briefings\<close> dictionary and the updates sent so far.
\<close>

definition process_briefing ::
  "(category \<Rightarrow> str + str) \<Rightarrow> category \<Rightarrow>
   research_state \<times> (str \<times> str) list \<times> updates \<Rightarrow> research_state \<times> (str \<times> str) list \<times> updates" where
  "process_briefing gen task acc =
     (case acc of
        (state, briefings, ev) \<Rightarrow>
          (case generate_category_briefing (curated_data task state) task
                  (rs_websocket_manager state) (rs_job_id state) (gen task) of
             (content, ev') \<Rightarrow>
               (if content \<noteq> []
                then (set_briefing task content state,
                      AList.update (category_name task) content briefings, ev @ ev')
                else (set_briefing task [] state, briefings, ev @ ev'))))"

text \<open>
  \<open>create_briefings\<close>. \<open>gen\<close> gives the outcome of the generative call of each
  category. The tasks run here one after the other in the order of \<open>asyncio.gather\<close>'s
  arguments; each task writes its own briefing key, so the state does not depend on
  how the tasks interleave (the order of the updates does).
\<close>

definition create_briefings ::
  "research_state \<Rightarrow> (category \<Rightarrow> str + str) \<Rightarrow> research_state \<times> updates" where
  "create_briefings state gen =
     (let ev0 = notify (rs_websocket_manager state) (rs_job_id state)
                  (status_update status_processing (Some (ascii ''Starting research briefings'')) None
                     (Some [((ascii ''step''), JStr (ascii ''Briefing''))]))
      in case collect_tasks [Financial, News, Industry, Company] state [] of
           (state1, briefing_tasks) \<Rightarrow>
             (case fold (process_briefing gen) briefing_tasks (state1, [], ev0) of
                (state2, briefings, ev) \<Rightarrow> (state2\<lparr>rs_briefings := briefings\<rparr>, ev)))"









section \<open>Editor (editor.py)\<close>

definition status_report_chunk :: str where "status_report_chunk = (ascii ''report_chunk'')"
definition status_editor_complete :: str where "status_editor_complete = (ascii ''editor_complete'')"

text \<open>
  \<open>compile_content\<close>. The generative call returns the message content or raises inside
  the \<open>try\<close> block (\<open>Inl\<close>). \<open>reference_text\<close> is what \<open>format_references_section\<close>
  returns for the state's references, \<open>""\<close> when there are none. \<open>briefings\<close> is the
  dictionary of the briefings found, in insertion order.
\<close>

definition compile_content :: "(str \<times> str) list \<Rightarrow> str \<Rightarrow> str + str \<Rightarrow> str" where
  "compile_content briefings reference_text response =
     (let combined_content = join ([0xA, 0xA]) (map snd briefings)
      in case response of
           Inr content \<Rightarrow>
             (let initial_report = strip content
              in if reference_text \<noteq> [] then initial_report @ ([0xA, 0xA]) @ reference_text
                 else initial_report)
         | Inl e \<Rightarrow> strip combined_content)"

text \<open>
  A chunk of the streamed response: its \<open>finish_reason\<close> and its \<open>delta.content\<close>; the
  stream may also raise while it is read.
\<close>

datatype stream_item = Chunk "str option" "str option" | StreamRaises str

definition report_chunk :: "str \<Rightarrow> ws_message" where
  "report_chunk buffer =
     status_update status_report_chunk (Some (ascii ''Mise en forme du rapport final'')) None
       (Some [((ascii ''chunk''), JStr buffer), ((ascii ''step''), JStr ([0xC9] @ ascii ''diteur''))])"

text \<open>\<open>any(char in buffer for char in ['.', '!', '?', '\n']) and len(buffer) > 10\<close>.\<close>

definition flush_condition :: "str \<Rightarrow> bool" where
  "flush_condition buffer \<longleftrightarrow>
     list_ex (\<lambda>char. char \<in> set buffer) [46, 33, 63, 10] \<and> 10 < length buffer"

text \<open>
  The loop of \<open>content_sweep\<close> over the stream, on \<open>accumulated_text\<close>, \<open>buffer\<close> and the
  updates sent so far. It ends with the accumulated text, or with the exception the
  stream raised.
\<close>

fun sweep_loop ::
  "bool \<Rightarrow> str option \<Rightarrow> stream_item list \<Rightarrow> str \<Rightarrow> str \<Rightarrow> updates \<Rightarrow> (str + str) \<times> updates" where
  "sweep_loop websocket_manager job_id [] accumulated_text buffer ev = (Inr accumulated_text, ev)"
| "sweep_loop websocket_manager job_id (StreamRaises e # rest) accumulated_text buffer ev =
     (Inl e, ev)"
| "sweep_loop websocket_manager job_id (Chunk finish_reason chunk_text # rest)
       accumulated_text buffer ev =
     (if finish_reason = Some (ascii ''stop'')
      then (Inr accumulated_text,
            ev @ (if buffer \<noteq> [] then notify websocket_manager job_id (report_chunk buffer) else []))
      else (case chunk_text of
              Some (c # cs) \<Rightarrow>
                (if flush_condition (buffer @ c # cs)
                 then sweep_loop websocket_manager job_id rest (accumulated_text @ c # cs) []
                        (ev @ notify websocket_manager job_id (report_chunk (buffer @ c # cs)))
                 else sweep_loop websocket_manager job_id rest (accumulated_text @ c # cs)
                        (buffer @ c # cs) ev)
            | _ \<Rightarrow> sweep_loop websocket_manager job_id rest accumulated_text buffer ev))"

text \<open>
  \<open>content_sweep\<close>: the streaming call raises when it is made (\<open>Inl\<close>) or gives a stream.
\<close>

definition content_sweep ::
  "bool \<Rightarrow> str option \<Rightarrow> str \<Rightarrow> str + stream_item list \<Rightarrow> str \<times> updates" where
  "content_sweep websocket_manager job_id content response =
     (case response of
        Inl e \<Rightarrow> (strip content, [])
      | Inr stream \<Rightarrow>
          (case sweep_loop websocket_manager job_id stream [] [] [] of
             (Inr accumulated_text, ev) \<Rightarrow> (strip accumulated_text, ev)
           | (Inl e, ev) \<Rightarrow> (strip content, ev)))"

definition editor_step :: "str \<Rightarrow> str \<Rightarrow> ws_message" where
  "editor_step message substep =
     status_update status_processing (Some message) None
       (Some [((ascii ''step''), JStr ([0xC9] @ ascii ''diteur'')), ((ascii ''substep''), JStr substep)])"

text \<open>
  \<open>edit_report\<close>: the state, the report returned and the updates sent. None of the
  calls in its \<open>try\<close> block raises in this model, so its \<open>except\<close> branch is not taken.
\<close>

definition edit_report ::
  "research_state \<Rightarrow> (str \<times> str) list \<Rightarrow> str \<Rightarrow> str \<Rightarrow> str + str \<Rightarrow> str + stream_item list \<Rightarrow>
   research_state \<times> str \<times> updates" where
  "edit_report state briefings company reference_text compile_response sweep_response =
     (let send = notify (rs_websocket_manager state) (rs_job_id state);
          ev1 = send (editor_step (ascii ''Compilation du rapport de recherche initial'') (ascii ''compilation''));
          edited_report = compile_content briefings reference_text compile_response
      in if edited_report = [] then (state, [], ev1)
         else
           (let ev2 = ev1 @ send (editor_step (ascii ''Nettoyage et organisation du rapport'') (ascii ''nettoyage''))
                          @ send (editor_step (ascii ''Mise en forme du rapport final'') (ascii ''mise_en_forme''))
            in case content_sweep (rs_websocket_manager state) (rs_job_id state) edited_report
                      sweep_response of
                 (final_report, ev3) \<Rightarrow>
                   (if strip final_report = [] then (state, [], ev2 @ ev3)
                    else (state\<lparr>rs_report := Some final_report,
                                rs_status := Some status_editor_complete,
                                rs_editor := Some (Some final_report)\<rparr>,
                          final_report,
                          ev2 @ ev3 @
                          send (status_update status_editor_complete
                                  (Some (ascii ''Rapport de recherche termin'' @ [0xE9])) None
                                  (Some [((ascii ''step''), JStr ([0xC9] @ ascii ''diteur'')),
                                         ((ascii ''report''), JStr final_report),
                                         ((ascii ''company''), JStr company),
                                         ((ascii ''is_final''), JBool True),
                                         ((ascii ''status''), JStr (ascii ''termin'' @ [0xE9]))]))))))"

text \<open>
  The loop of \<open>compile_briefings\<close> over \<open>briefing_keys\<close>: the briefings found and the
  lines added to \<open>msg\<close>.
\<close>

fun collect_briefings ::
  "category list \<Rightarrow> research_state \<Rightarrow> (str \<times> str) list \<times> str list \<Rightarrow> (str \<times> str) list \<times> str list" where
  "collect_briefings [] state acc = acc"
| "collect_briefings (category # rest) state (individual_briefings, msg) =
     (case get_briefing category state of
        Some (c # cs) \<Rightarrow>
          collect_briefings rest state
            (AList.update (category_name category) (c # cs) individual_briefings,
             msg @ [(ascii ''Synth'' @ [0xE8] @ ascii ''se '') @ category_name category @ (ascii '' trouv'' @ [0xE9] @ ascii ''e ('')
                      @ str_of_nat (length (c # cs)) @ (ascii '' caract'' @ [0xE8] @ ascii ''res)'')])
      | _ \<Rightarrow>
          collect_briefings rest state
            (individual_briefings,
             msg @ [(ascii ''Aucune synth'' @ [0xE8] @ ascii ''se '') @ category_name category @ (ascii '' disponible'')]))"

definition compile_briefings ::
  "research_state \<Rightarrow> str \<Rightarrow> str + str \<Rightarrow> str + stream_item list \<Rightarrow> research_state \<times> updates" where
  "compile_briefings state reference_text compile_response sweep_response =
     (let company = (case rs_company state of None \<Rightarrow> (ascii ''Entreprise inconnue'') | Some c \<Rightarrow> c);
          send = notify (rs_websocket_manager state) (rs_job_id state);
          ev0 = send (editor_step ((ascii ''D'' @ [0xE9] @ ascii ''marrage de la compilation du rapport pour '') @ company)
                        (ascii ''initialisation''))
                @ send (editor_step (ascii ''Collecte des synth'' @ [0xE8] @ ascii ''ses de sections'') (ascii ''collecte_synth'' @ [0xE8] @ ascii ''ses''))
      in case collect_briefings [Company, Industry, Financial, News] state
                ([], [([0x1F4D1] @ ascii '' Compilation du rapport final pour '') @ company @ (ascii ''...'')]) of
           (individual_briefings, msg) \<Rightarrow>
             (if individual_briefings = []
              then (state\<lparr>rs_messages := rs_messages state @
                       [join ([0xA])
                          (msg @ [([0xA, 0x26A0, 0xFE0F] @ ascii '' Aucune section de synth'' @ [0xE8] @ ascii ''se disponible pour la compilation'')])]\<rparr>,
                    ev0)
              else (case edit_report state individual_briefings company reference_text
                           compile_response sweep_response of
                      (state1, compiled_report, ev1) \<Rightarrow>
                        (state1\<lparr>rs_messages := rs_messages state1 @ [join ([0xA]) msg]\<rparr>,
                         ev0 @ ev1))))"

text \<open>\<open>Editor.run\<close>.\<close>

definition editor_run ::
  "research_state \<Rightarrow> str \<Rightarrow> str + str \<Rightarrow> str + stream_item list \<Rightarrow> research_state \<times> updates" where
  "editor_run state reference_text compile_response sweep_response =
     (case compile_briefings state reference_text compile_response sweep_response of
        (state1, ev) \<Rightarrow>
          (case rs_report state1 of
             Some r \<Rightarrow> (state1\<lparr>rs_editor := Some (Some r)\<rparr>, ev)
           | None \<Rightarrow> (state1, ev)))"

section \<open>Delivering updates\<close>

text \<open>
  The updates sent in a row through the manager while no other task changes the
  registrations: each one is broadcast to the connections registered at that moment.
  The result is the registrations left and the messages delivered, in order.
\<close>

fun publish_all ::
  "('ws \<Rightarrow> send_outcome) \<Rightarrow> updates \<Rightarrow> 'ws connections \<Rightarrow> 'ws connections \<times> ('ws \<times> ws_message) list" where
  "publish_all send_text [] conns = (conns, [])"
| "publish_all send_text ((job_id, message) # rest) conns =
     (case publish_all send_text rest
             (conns_after (broadcast_to_job send_text (\<lambda>c. []) job_id message conns)) of
        (conns', later) \<Rightarrow>
          (conns', delivered (broadcast_to_job send_text (\<lambda>c. []) job_id message conns) @ later))"

text \<open>What one connection observes among the delivered messages.\<close>

definition observed :: "'ws \<Rightarrow> ('ws \<times> ws_message) list \<Rightarrow> ws_message list" where
  "observed ws ds = map snd (filter (\<lambda>d. fst d = ws) ds)"

section \<open>Concrete inputs\<close>

text \<open>A job, a request and a clock reading used to evaluate the definitions.\<close>

definition ex_job :: str where "ex_job = ascii ''job-1''"

definition ex_now :: str where "ex_now = ascii ''2025-01-01T00:00:00''"

definition ex_request :: research_request where
  "ex_request =
     \<lparr>rq_company = ascii ''Acme'', rq_company_url = Some (ascii ''https://acme.example''),
      rq_industry = None, rq_hq_location = None\<rparr>"

text \<open>A run of the graph that raises before yielding anything.\<close>

definition ex_failing_graph :: graph_run where
  "ex_failing_graph = \<lparr>yields = [], graph_updates = [], raised = Some (ascii ''boom'')\<rparr>"

text \<open>A run of the graph that ends with a report.\<close>

definition ex_reporting_graph :: graph_run where
  "ex_reporting_graph =
     \<lparr>yields = [\<lparr>y_report = Some (ascii ''# Report''), y_editor = Some (Some (ascii ''# Report'')),
                  y_error = None\<rparr>],
      graph_updates = [], raised = None\<rparr>"

text \<open>The input state of that job's graph, with a manager and a company URL.\<close>

definition ex_input_state :: research_state where
  "ex_input_state =
     \<lparr>rs_company = Some (ascii ''Acme''),
      rs_company_url = Some (ascii ''https://acme.example''),
      rs_hq_location = None, rs_industry = None,
      rs_websocket_manager = True, rs_job_id = Some ex_job,
      rs_messages = [], rs_site_scrape = [], rs_error = None,
      rs_curated_financial_data = [], rs_curated_news_data = [],
      rs_curated_industry_data = [], rs_curated_company_data = [],
      rs_financial_briefing = None, rs_news_briefing = None,
      rs_industry_briefing = None, rs_company_briefing = None,
      rs_briefings = [], rs_report = None, rs_status = None, rs_editor = None\<rparr>"



text \<open>
  The state of that job before the briefings, with curated company and news documents,
  and generative calls of which the one for the company briefing raises.
\<close>

definition ex_curated_state :: research_state where
  "ex_curated_state =
     ex_input_state
       \<lparr>rs_curated_news_data := [(ascii ''https://news.example/a'', ascii ''Acme opens a plant'')],
        rs_curated_company_data := [(ascii ''https://acme.example/about'', ascii ''Acme makes anvils'')]\<rparr>"

fun ex_gen :: "category \<Rightarrow> str + str" where
  "ex_gen Company = Inl (ascii ''quota exceeded'')"
| "ex_gen News = Inr (ascii '' * Acme opens a plant. '')"
| "ex_gen Financial = Inr (ascii ''unused'')"
| "ex_gen Industry = Inr (ascii ''unused'')"

text \<open>The state of that job after a crawl that raised \<open>timeout\<close>, without any curated document.\<close>

definition ex_crawl_failed_state :: research_state where
  "ex_crawl_failed_state = ex_input_state\<lparr>rs_error := Some (ascii ''timeout'')\<rparr>"

text \<open>
  The stream of the clean-up call that delivers \<open>Sec\<close>, then \<open>tion 1.\<close> with a newline,
  then the stop signal.
\<close>

definition ex_stream :: "stream_item list" where
  "ex_stream =
     [Chunk None (Some (ascii ''Sec'')), Chunk None (Some (ascii ''tion 1.'' @ [10])),
      Chunk (Some (ascii ''stop'')) None]"

text \<open>A stream that delivers two sentences, each longer than 10 characters, then stops.\<close>

definition ex_two_sentences :: "stream_item list" where
  "ex_two_sentences =
     [Chunk None (Some (ascii ''Hello world. '')), Chunk None (Some (ascii ''Goodbye all. '')),
      Chunk (Some (ascii ''stop'')) None]"

text \<open>The state of that job before the editor, with a company briefing.\<close>

definition ex_briefed_state :: research_state where
  "ex_briefed_state = ex_input_state\<lparr>rs_company_briefing := Some (ascii ''* Acme makes anvils.'')\<rparr>"

text \<open>
  A hub with four subscribers of that job, in the order the loop visits them. The
  connection of the first is gone, so the send to it raises; the fourth client leaves
  while the send to the second is awaited, and its endpoint unregisters it then.
\<close>

definition ex_hub :: "nat connections" where
  "ex_hub = Map.empty(ex_job \<mapsto> [1, 2, 3, 4])"

definition ex_send_text :: "nat \<Rightarrow> send_outcome" where
  "ex_send_text c = (if c = 1 then Raised (ascii ''connection closed'') else Sent)"

definition ex_others :: "nat \<Rightarrow> nat hub_op list" where
  "ex_others c = (if c = 2 then [Disconnect 4 ex_job] else [])"

section \<open>Properties of the WebSocketManager\<close>

text \<open>Without interference the loop visits the whole set and raises nothing.\<close>

lemma send_loop_quiet:
  assumes "conns job_id = Some S" and "n \<le> length S"
  shows "\<exists>ds. send_loop send_text (\<lambda>c. []) job_id (length S) n (conns, False) (att, sent, disc) =
           (None, conns, att @ drop (length S - n) S,
            sent @ filter (\<lambda>c. send_text c = Sent) (drop (length S - n) S), ds) \<and>
          set ds = set disc \<union> {c \<in> set (drop (length S - n) S). send_text c \<noteq> Sent}"
  using assms(2)
proof (induction n arbitrary: att sent disc)
  case 0
  then show ?case using assms(1) by (simp add: iterated_def)
next
  case (Suc n)
  let ?i = "length S - Suc n"
  from Suc.prems have i: "?i < length S" "Suc ?i = length S - n" by simp_all
  have dr: "drop ?i S = S ! ?i # drop (length S - n) S"
    using Cons_nth_drop_Suc [OF i(1)] i(2) by simp
  from Suc.prems have n: "n \<le> length S" by simp
  show ?case
  proof (cases "send_text (S ! ?i)")
    case Sent
    from Suc.IH [OF n, of "att @ [S ! ?i]" "sent @ [S ! ?i]" disc] obtain ds where
      "send_loop send_text (\<lambda>c. []) job_id (length S) n (conns, False)
          (att @ [S ! ?i], sent @ [S ! ?i], disc) =
        (None, conns, (att @ [S ! ?i]) @ drop (length S - n) S,
         (sent @ [S ! ?i]) @ filter (\<lambda>c. send_text c = Sent) (drop (length S - n) S), ds)"
      "set ds = set disc \<union> {c \<in> set (drop (length S - n) S). send_text c \<noteq> Sent}"
      by blast
    with Sent assms(1) dr show ?thesis
      by (intro exI [of _ ds]) (auto simp: iterated_def Let_def)
  next
    case (Raised e)
    from Suc.IH [OF n, of "att @ [S ! ?i]" sent "List.insert (S ! ?i) disc"] obtain ds where
      "send_loop send_text (\<lambda>c. []) job_id (length S) n (conns, False)
          (att @ [S ! ?i], sent, List.insert (S ! ?i) disc) =
        (None, conns, (att @ [S ! ?i]) @ drop (length S - n) S,
         sent @ filter (\<lambda>c. send_text c = Sent) (drop (length S - n) S), ds)"
      "set ds = set (List.insert (S ! ?i) disc)
                  \<union> {c \<in> set (drop (length S - n) S). send_text c \<noteq> Sent}"
      by blast
    with Raised assms(1) dr show ?thesis
      by (intro exI [of _ ds]) (auto simp: iterated_def Let_def)
  qed
qed

lemma broadcast_quiet:
  assumes "conns job_id = Some S"
  shows "\<exists>ds. broadcast_to_job send_text (\<lambda>c. []) job_id message conns =
           \<lparr>conns_after = fold (\<lambda>c h. disconnect c job_id h) ds conns, attempted = S,
            delivered = map (\<lambda>c. (c, message)) (filter (\<lambda>c. send_text c = Sent) S),
            failure = None\<rparr> \<and>
          set ds = {c \<in> set S. send_text c \<noteq> Sent}"
proof -
  from send_loop_quiet [where conns = conns and job_id = job_id and S = S and n = "length S"
      and send_text = send_text and att = "[]" and sent = "[]" and disc = "[]"] assms
  obtain ds where
    "send_loop send_text (\<lambda>c. []) job_id (length S) (length S) (conns, False) ([], [], []) =
       (None, conns, S, filter (\<lambda>c. send_text c = Sent) S, ds)"
    "set ds = {c \<in> set S. send_text c \<noteq> Sent}"
    by auto
  with assms show ?thesis
    by (intro exI [of _ ds]) (simp add: broadcast_to_job_def)
qed

lemma disconnect_other: "j \<noteq> job_id \<Longrightarrow> disconnect c job_id conns j = conns j"
  by (simp add: disconnect_def Let_def split: option.splits)

lemma fold_disconnect_other:
  "j \<noteq> job_id \<Longrightarrow> fold (\<lambda>c h. disconnect c job_id h) ds conns j = conns j"
  by (induction ds arbitrary: conns) (simp_all add: disconnect_other)

lemma fold_disconnect_None:
  "conns job_id = None \<Longrightarrow> fold (\<lambda>c h. disconnect c job_id h) ds conns job_id = None"
  by (induction ds arbitrary: conns) (simp_all add: disconnect_def)

lemma fold_disconnect_Some:
  "conns job_id = Some S \<Longrightarrow> ds \<noteq> [] \<Longrightarrow>
   fold (\<lambda>c h. disconnect c job_id h) ds conns job_id =
     (if filter (\<lambda>c. c \<notin> set ds) S = [] then None else Some (filter (\<lambda>c. c \<notin> set ds) S))"
proof (induction ds arbitrary: conns S)
  case Nil
  then show ?case by simp
next
  case (Cons d ds)
  let ?S' = "removeAll d S"
  have flt: "filter (\<lambda>c. c \<notin> set (d # ds)) S = filter (\<lambda>c. c \<notin> set ds) ?S'"
    by (induction S) auto
  show ?case
  proof (cases "?S' = []")
    case True
    then have "disconnect d job_id conns job_id = None"
      using Cons.prems(1) by (simp add: disconnect_def)
    then have "fold (\<lambda>c h. disconnect c job_id h) ds (disconnect d job_id conns) job_id = None"
      by (rule fold_disconnect_None)
    with True flt show ?thesis by simp
  next
    case False
    then have step: "disconnect d job_id conns job_id = Some ?S'"
      using Cons.prems(1) by (simp add: disconnect_def)
    show ?thesis
    proof (cases "ds = []")
      case True
      with step False flt show ?thesis by simp
    next
      case nonempty: False
      from Cons.IH [of "disconnect d job_id conns" ?S', OF step nonempty] flt
      show ?thesis by simp
    qed
  qed
qed

lemma insert_not_Nil: "List.insert x xs \<noteq> []"
  by (cases xs) (simp_all add: List.insert_def)

lemma no_empty_sets_connect: "no_empty_sets conns \<Longrightarrow> no_empty_sets (connect ws job_id conns)"
  unfolding no_empty_sets_def connect_def
  by (auto simp: ran_def insert_not_Nil split: if_splits)

lemma no_empty_sets_disconnect:
  "no_empty_sets conns \<Longrightarrow> no_empty_sets (disconnect ws job_id conns)"
  unfolding no_empty_sets_def disconnect_def
  by (auto simp: ran_def Let_def split: option.splits if_splits)

lemma no_empty_sets_empty: "no_empty_sets Map.empty"
  by (simp add: no_empty_sets_def)

text \<open>
  Claim C9. The subscriber map never holds a job id mapped to an empty subscriber set:
  from a map with no empty set, \<open>connect\<close> and \<open>disconnect\<close> both yield a map with
  no empty set; \<open>connect\<close> leaves the job's key present with the new subscriber in its
  set, and \<open>disconnect\<close> never leaves the job's key mapped to an empty set (removing
  the last subscriber removes the key).
\<close>

theorem hub_never_maps_job_to_empty_set:
  assumes "no_empty_sets conns"
  shows "no_empty_sets (connect ws job_id conns) \<and>
         no_empty_sets (disconnect ws job_id conns) \<and>
         (\<exists>S. connect ws job_id conns job_id = Some S \<and> ws \<in> set S) \<and>
         disconnect ws job_id conns job_id \<noteq> Some []"
proof -
  have "\<exists>S. connect ws job_id conns job_id = Some S \<and> ws \<in> set S"
    by (simp add: connect_def)
  moreover have "disconnect ws job_id conns job_id \<noteq> Some []"
    using assms
    by (auto simp: disconnect_def no_empty_sets_def ran_def Let_def split: option.splits)
  ultimately show ?thesis
    using assms by (simp add: no_empty_sets_connect no_empty_sets_disconnect)
qed

lemma broadcast_delivered:
  "conns job_id = Some S \<Longrightarrow>
   delivered (broadcast_to_job send_text (\<lambda>c. []) job_id message conns) =
     map (\<lambda>c. (c, message)) (filter (\<lambda>c. send_text c = Sent) S)"
  using broadcast_quiet [of conns job_id S send_text message] by auto

lemma broadcast_attempted:
  "conns job_id = Some S \<Longrightarrow>
   attempted (broadcast_to_job send_text (\<lambda>c. []) job_id message conns) = S"
  using broadcast_quiet [of conns job_id S send_text message] by auto

lemma broadcast_no_failure:
  "failure (broadcast_to_job send_text (\<lambda>c. []) job_id message conns) = None"
proof (cases "conns job_id")
  case None
  then show ?thesis by (simp add: broadcast_to_job_def)
next
  case (Some S)
  with broadcast_quiet [of conns job_id S send_text message] show ?thesis by auto
qed

lemma broadcast_other:
  "j \<noteq> job_id \<Longrightarrow>
   conns_after (broadcast_to_job send_text (\<lambda>c. []) job_id message conns) j = conns j"
proof (cases "conns job_id")
  case None
  then show ?thesis by (simp add: broadcast_to_job_def)
next
  case (Some S)
  assume "j \<noteq> job_id"
  with Some broadcast_quiet [of conns job_id S send_text message] show ?thesis
    by (auto simp: fold_disconnect_other)
qed

lemma broadcast_conns_after:
  assumes "conns job_id = Some S"
  shows "conns_after (broadcast_to_job send_text (\<lambda>c. []) job_id message conns) job_id =
     (if \<forall>c\<in>set S. send_text c = Sent then Some S
      else if filter (\<lambda>c. send_text c = Sent) S = [] then None
      else Some (filter (\<lambda>c. send_text c = Sent) S))"
proof -
  from broadcast_quiet [of conns job_id S send_text message] assms obtain ds where
    after: "conns_after (broadcast_to_job send_text (\<lambda>c. []) job_id message conns) =
      fold (\<lambda>c h. disconnect c job_id h) ds conns"
    and ds: "set ds = {c \<in> set S. send_text c \<noteq> Sent}"
    by auto
  have flt: "filter (\<lambda>c. c \<notin> set ds) S = filter (\<lambda>c. send_text c = Sent) S"
    by (rule filter_cong) (auto simp: ds)
  show ?thesis
  proof (cases "ds = []")
    case True
    with ds have "\<forall>c\<in>set S. send_text c = Sent" by auto
    with True after assms show ?thesis by simp
  next
    case False
    with ds have "\<not> (\<forall>c\<in>set S. send_text c = Sent)" by (cases ds) auto
    with fold_disconnect_Some [of conns job_id S ds, OF assms False] flt after show ?thesis by auto
  qed
qed

text \<open>
  The invariant at a concrete hub: one subscriber connects to a job of the empty hub
  and disconnects again, which removes the job's entry.
\<close>

theorem hub_never_maps_job_to_empty_set_witness:
  "no_empty_sets (connect (1::nat) (ascii ''job'') Map.empty) \<and>
   no_empty_sets (disconnect (1::nat) (ascii ''job'') Map.empty) \<and>
   connect (1::nat) (ascii ''job'') Map.empty (ascii ''job'') = Some [1] \<and>
   disconnect (1::nat) (ascii ''job'') (connect 1 (ascii ''job'') Map.empty) = Map.empty \<and>
   no_empty_sets (disconnect (1::nat) (ascii ''job'') (connect 1 (ascii ''job'') Map.empty))"
  using hub_never_maps_job_to_empty_set [OF no_empty_sets_empty, of "1::nat" "ascii ''job''"]
        hub_never_maps_job_to_empty_set [of "connect (1::nat) (ascii ''job'') Map.empty" 1 "ascii ''job''"]
  by (simp add: connect_def disconnect_def)

text \<open>
  As long as no other task changes the registrations while the sends are awaited, a
  publish attempts a delivery to every subscriber of the job and delivers the message to
  exactly those whose \<open>send_text\<close> returns; the subscribers whose delivery raised are
  unregistered when the call returns, the others still are; other jobs are untouched and
  the call raises nothing.
\<close>

lemma broadcast_without_interference:
  assumes "conns job_id = Some S"
  shows "attempted (broadcast_to_job send_text (\<lambda>c. []) job_id message conns) = S \<and>
         delivered (broadcast_to_job send_text (\<lambda>c. []) job_id message conns) =
           map (\<lambda>c. (c, message)) (filter (\<lambda>c. send_text c = Sent) S) \<and>
         (\<forall>c\<in>set S. send_text c = Sent \<longrightarrow>
            (c, message) \<in> set (delivered (broadcast_to_job send_text (\<lambda>c. []) job_id message conns))) \<and>
         (\<forall>c\<in>set S. send_text c \<noteq> Sent \<longrightarrow>
            (\<forall>S'. conns_after (broadcast_to_job send_text (\<lambda>c. []) job_id message conns) job_id = Some S'
               \<longrightarrow> c \<notin> set S')) \<and>
         conns_after (broadcast_to_job send_text (\<lambda>c. []) job_id message conns) job_id =
           (if \<forall>c\<in>set S. send_text c = Sent then Some S
            else if filter (\<lambda>c. send_text c = Sent) S = [] then None
            else Some (filter (\<lambda>c. send_text c = Sent) S)) \<and>
         (\<forall>j. j \<noteq> job_id \<longrightarrow>
            conns_after (broadcast_to_job send_text (\<lambda>c. []) job_id message conns) j = conns j) \<and>
         failure (broadcast_to_job send_text (\<lambda>c. []) job_id message conns) = None"
proof -
  let ?r = "broadcast_to_job send_text (\<lambda>c. []) job_id message conns"
  have a: "attempted ?r = S"
    using assms by (rule broadcast_attempted)
  have d: "delivered ?r = map (\<lambda>c. (c, message)) (filter (\<lambda>c. send_text c = Sent) S)"
    using assms by (rule broadcast_delivered)
  have ok: "\<forall>c\<in>set S. send_text c = Sent \<longrightarrow> (c, message) \<in> set (delivered ?r)"
    by (auto simp: d)
  have after: "conns_after ?r job_id =
           (if \<forall>c\<in>set S. send_text c = Sent then Some S
            else if filter (\<lambda>c. send_text c = Sent) S = [] then None
            else Some (filter (\<lambda>c. send_text c = Sent) S))"
    using assms by (rule broadcast_conns_after)
  have gone: "\<forall>c\<in>set S. send_text c \<noteq> Sent \<longrightarrow>
            (\<forall>S'. conns_after ?r job_id = Some S' \<longrightarrow> c \<notin> set S')"
    unfolding after by (auto split: if_splits)
  have other: "\<forall>j. j \<noteq> job_id \<longrightarrow> conns_after ?r j = conns j"
    by (simp add: broadcast_other)
  have quiet: "failure ?r = None"
    by (rule broadcast_no_failure)
  from a d ok gone after other quiet show ?thesis by (intro conjI)
qed

text \<open>
  Claim C6 fails on the code. Four subscribers are registered for a job. The send to the
  first raises and is caught. While the send to the second is awaited, the fourth
  client leaves and its endpoint unregisters it. The next step of the loop finds that
  the set has changed size and raises \<open>RuntimeError\<close>, which leaves
  \<open>broadcast_to_job\<close>: the publish call raises; the third subscriber, registered and
  reachable, is never sent the message; and the first, whose delivery failed, is still
  registered when the call ends.
\<close>

theorem broadcast_aborts_when_set_changes_during_send:
  "failure (broadcast_to_job ex_send_text ex_others ex_job
              (status_update status_processing None None None) ex_hub) = Some RuntimeError \<and>
   attempted (broadcast_to_job ex_send_text ex_others ex_job
              (status_update status_processing None None None) ex_hub) = [1, 2] \<and>
   delivered (broadcast_to_job ex_send_text ex_others ex_job
              (status_update status_processing None None None) ex_hub)
     = [(2, status_update status_processing None None None)] \<and>
   conns_after (broadcast_to_job ex_send_text ex_others ex_job
              (status_update status_processing None None None) ex_hub) ex_job = Some [1, 2, 3] \<and>
   ex_send_text 1 \<noteq> Sent \<and> ex_send_text 3 = Sent"
  by (simp add: broadcast_to_job_def ex_hub_def ex_send_text_def ex_others_def iterated_def
        disconnect_def numeral_eq_Suc)



lemma delivered_subset_attempted:
  "fst ` set (delivered (broadcast_to_job send_text (\<lambda>c. []) job_id message conns))
     \<subseteq> set (attempted (broadcast_to_job send_text (\<lambda>c. []) job_id message conns))"
proof (cases "conns job_id")
  case None
  then show ?thesis by (simp add: broadcast_to_job_def)
next
  case (Some S)
  then show ?thesis
    by (auto simp: broadcast_attempted broadcast_delivered)
qed








section \<open>Properties of the job registry\<close>

lemma status_distinct:
  "status_completed \<noteq> status_processing" "status_completed \<noteq> status_pending"
  "status_completed \<noteq> status_failed" "status_failed \<noteq> status_processing"
  "status_failed \<noteq> status_pending" "status_processing \<noteq> status_pending"
  by (simp_all add: status_completed_def status_processing_def status_pending_def
        status_failed_def ascii_def)

lemma process_research_other:
  "j \<noteq> job_id \<Longrightarrow> fst (process_research now job_id data graph job_status) j = job_status j"
  by (simp add: process_research_def Let_def split: option.splits list.splits)

lemma process_research_raised:
  "raised graph = Some e \<Longrightarrow> fst (process_research now job_id data graph job_status) = job_status"
  by (simp add: process_research_def Let_def)

lemma process_research_no_report:
  "raised graph = None \<Longrightarrow>
   \<not> truthy (report_content (fold (\<lambda>s state. state_update state s) (yields graph) empty_state)) \<Longrightarrow>
   fst (process_research now job_id data graph job_status) = job_status"
  by (auto simp: process_research_def Let_def split: option.splits list.splits)

lemma process_research_report:
  "raised graph = None \<Longrightarrow>
   report_content (fold (\<lambda>s state. state_update state s) (yields graph) empty_state) = Some r \<Longrightarrow>
   r \<noteq> [] \<Longrightarrow>
   fst (process_research now job_id data graph job_status) job_id =
     Some ((case job_status job_id of None \<Rightarrow> default_job now | Some old \<Rightarrow> old)
             \<lparr>j_status := status_completed, j_report := Some r,
              j_company := Some (rq_company data), j_last_update := now\<rparr>)"
  by (cases r) (simp_all add: process_research_def Let_def)

text \<open>
  The history of \<open>job_status\<close> ends with the registry that \<open>process_research\<close> leaves.
\<close>

lemma registry_history_last:
  "last (registry_history now job_id data graph job_status)
     = fst (process_research now job_id data graph job_status)"
  by (simp add: registry_history_def process_research_def Let_def split: option.splits list.splits)

text \<open>
  Claim C2, as amended, for a run that ends with a report. The statuses recorded for
  the job in the course of the run are, in order: the one the run finds (none for a new
  job), then \<open>pending\<close> when the job had no entry (the default entry) or else the status
  found, then \<open>completed\<close>. The run starts from the registry as found and ends with the
  one \<open>process_research\<close> returns; no entry of another job changes at any point; and
  \<open>processing\<close>, which is published to the subscribers, is at no point the recorded
  status of the job unless it was before the run.
\<close>

theorem successful_run_records_pending_then_completed:
  assumes "raised graph = None"
    and "report_content (fold (\<lambda>s state. state_update state s) (yields graph) empty_state) = Some r"
    and "r \<noteq> []"
  shows "map (\<lambda>h. map_option j_status (h job_id))
             (registry_history now job_id data graph job_status) =
           [map_option j_status (job_status job_id),
            Some (case job_status job_id of None \<Rightarrow> status_pending | Some old \<Rightarrow> j_status old),
            Some status_completed] \<and>
         hd (registry_history now job_id data graph job_status) = job_status \<and>
         last (registry_history now job_id data graph job_status)
           = fst (process_research now job_id data graph job_status) \<and>
         (\<forall>h\<in>set (registry_history now job_id data graph job_status).
            \<forall>j. j \<noteq> job_id \<longrightarrow> h j = job_status j) \<and>
         (map_option j_status (job_status job_id) \<noteq> Some status_processing \<longrightarrow>
            (\<forall>h\<in>set (registry_history now job_id data graph job_status).
               map_option j_status (h job_id) \<noteq> Some status_processing))"
proof -
  from assms(3) obtain c cs where r: "r = c # cs" by (cases r) auto
  let ?entry = "case job_status job_id of None \<Rightarrow> default_job now | Some old \<Rightarrow> old"
  have hist: "registry_history now job_id data graph job_status =
      [job_status, job_status(job_id \<mapsto> ?entry),
       job_status(job_id \<mapsto> ?entry\<lparr>j_status := status_completed, j_report := Some r,
                                     j_company := Some (rq_company data), j_last_update := now\<rparr>)]"
    using assms(1,2) by (simp add: registry_history_def r Let_def)
  have entry: "j_status ?entry
      = (case job_status job_id of None \<Rightarrow> status_pending | Some old \<Rightarrow> j_status old)"
    by (simp add: default_job_def split: option.splits)
  have statuses: "map (\<lambda>h. map_option j_status (h job_id))
             (registry_history now job_id data graph job_status) =
           [map_option j_status (job_status job_id),
            Some (case job_status job_id of None \<Rightarrow> status_pending | Some old \<Rightarrow> j_status old),
            Some status_completed]"
    unfolding hist using entry by simp
  have first: "hd (registry_history now job_id data graph job_status) = job_status"
    unfolding hist by simp
  have final: "last (registry_history now job_id data graph job_status)
           = fst (process_research now job_id data graph job_status)"
    by (rule registry_history_last)
  have others: "\<forall>h\<in>set (registry_history now job_id data graph job_status).
            \<forall>j. j \<noteq> job_id \<longrightarrow> h j = job_status j"
    unfolding hist by simp
  have no_processing: "map_option j_status (job_status job_id) \<noteq> Some status_processing \<longrightarrow>
            (\<forall>h\<in>set (registry_history now job_id data graph job_status).
               map_option j_status (h job_id) \<noteq> Some status_processing)"
    unfolding hist using entry status_distinct(1,6)
    by (auto split: option.splits)
  from statuses first final others no_processing show ?thesis by (intro conjI)
qed

text \<open>
  A run ending with a report, for a job the registry does not know yet: the recorded
  statuses are none, \<open>pending\<close>, \<open>completed\<close>.
\<close>

theorem successful_run_records_pending_then_completed_witness:
  "raised ex_reporting_graph = None \<and>
   report_content (fold (\<lambda>s state. state_update state s) (yields ex_reporting_graph) empty_state)
     = Some (ascii ''# Report'') \<and>
   map (\<lambda>h. map_option j_status (h ex_job))
       (registry_history ex_now ex_job ex_request ex_reporting_graph Map.empty)
     = [None, Some status_pending, Some status_completed] \<and>
   last (registry_history ex_now ex_job ex_request ex_reporting_graph Map.empty)
     = fst (process_research ex_now ex_job ex_request ex_reporting_graph Map.empty)"
proof -
  have h1: "raised ex_reporting_graph = None"
    by (simp add: ex_reporting_graph_def)
  have h2: "report_content (fold (\<lambda>s state. state_update state s) (yields ex_reporting_graph)
              empty_state) = Some (ascii ''# Report'')"
    by (simp add: ex_reporting_graph_def report_content_def state_update_def empty_state_def
          ascii_def)
  have h3: "ascii ''# Report'' \<noteq> []"
    by (simp add: ascii_def)
  from successful_run_records_pending_then_completed
         [OF h1 h2 h3, of ex_job ex_now ex_request Map.empty] h1 h2
  show ?thesis by simp
qed

text \<open>
  Claim C2 as stated fails on a run that succeeds: the run publishes \<open>processing\<close> and
  then \<open>completed\<close>, but the statuses recorded for its job are \<open>pending\<close> and then
  \<open>completed\<close>; \<open>processing\<close> is never recorded.
\<close>

theorem successful_run_never_records_processing:
  "map (\<lambda>h. map_option j_status (h ex_job))
       (registry_history ex_now ex_job ex_request ex_reporting_graph Map.empty)
     = [None, Some status_pending, Some status_completed] \<and>
   Some status_processing \<notin> set [None, Some status_pending, Some status_completed] \<and>
   map (\<lambda>u. upd_status (msg_data (snd u)))
       (snd (process_research ex_now ex_job ex_request ex_reporting_graph Map.empty))
     = [status_processing, status_completed]"
proof -
  have "map (\<lambda>h. map_option j_status (h ex_job))
       (registry_history ex_now ex_job ex_request ex_reporting_graph Map.empty)
     = [None, Some status_pending, Some status_completed]"
    by (simp add: registry_history_def ex_reporting_graph_def report_content_def state_update_def
          empty_state_def ascii_def default_job_def)
  moreover have "Some status_processing \<notin> set [None, Some status_pending, Some status_completed]"
    using status_distinct(1,6) by auto
  moreover have "map (\<lambda>u. upd_status (msg_data (snd u)))
       (snd (process_research ex_now ex_job ex_request ex_reporting_graph Map.empty))
     = [status_processing, status_completed]"
    by (simp add: process_research_def ex_reporting_graph_def report_content_def state_update_def
          empty_state_def ascii_def status_update_def)
  ultimately show ?thesis by (intro conjI)
qed

text \<open>
  Claim C1 at a failed run. The run publishes a final \<open>failed\<close> update, but the
  registry keeps no entry for the job, so a subscriber attaching afterwards is registered
  and receives nothing.
\<close>

theorem late_subscriber_after_failed_run_receives_nothing:
  "delivered (websocket_endpoint (\<lambda>c. Sent) (\<lambda>c. []) (1::nat) ex_job
       (fst (process_research ex_now ex_job ex_request ex_failing_graph Map.empty)) Map.empty) = [] \<and>
   conns_after (websocket_endpoint (\<lambda>c. Sent) (\<lambda>c. []) (1::nat) ex_job
       (fst (process_research ex_now ex_job ex_request ex_failing_graph Map.empty)) Map.empty) ex_job
     = Some [1] \<and>
   upd_status (msg_data (snd (last
       (snd (process_research ex_now ex_job ex_request ex_failing_graph Map.empty))))) = status_failed"
  by (simp add: process_research_def ex_failing_graph_def status_update_def websocket_endpoint_def
        connect_def)

text \<open>
  After a run that ended with a report, the only subscriber attaching to the job
  receives one update, with the recorded status \<open>completed\<close>.
\<close>

lemma late_subscriber_after_completed_run:
  assumes "raised graph = None"
    and "report_content (fold (\<lambda>s state. state_update state s) (yields graph) empty_state) = Some r"
    and "r \<noteq> []"
    and "job_status job_id = None"
    and "conns job_id = None"
  shows "delivered (websocket_endpoint (\<lambda>c. Sent) (\<lambda>c. []) ws job_id
           (fst (process_research now job_id data graph job_status)) conns)
         = [(ws, status_update status_completed (Some (ascii ''Connected to status stream''))
                   None None)]"
  using process_research_report [OF assms(1,2,3), of now job_id data job_status] assms(4,5)
  by (simp add: websocket_endpoint_def send_status_update_def broadcast_to_job_def connect_def
        default_job_def iterated_def)

text \<open>
  After any run that did not end with a report, whether the graph raised or its final
  state holds no report, a fresh job still has no entry in the registry, and a subscriber
  attaching then receives nothing.
\<close>

lemma late_subscriber_after_unsuccessful_run:
  assumes "raised graph \<noteq> None \<or>
           \<not> truthy (report_content (fold (\<lambda>s state. state_update state s) (yields graph) empty_state))"
    and "job_status job_id = None"
  shows "delivered (websocket_endpoint send_text others ws job_id
           (fst (process_research now job_id data graph job_status)) conns) = []"
proof -
  have "fst (process_research now job_id data graph job_status) = job_status"
  proof (cases "raised graph")
    case None
    with assms(1) show ?thesis by (simp add: process_research_no_report)
  next
    case (Some e)
    then show ?thesis by (rule process_research_raised)
  qed
  with assms(2) show ?thesis by (simp add: websocket_endpoint_def)
qed

section \<open>Properties of the grounding node\<close>



lemma contains_append_left: "contains m xs \<Longrightarrow> contains m (xs @ ys)"
  unfolding contains_def by (metis sublist_append)








section \<open>Properties of the briefing node\<close>

lemma set_briefing_frame [simp]:
  "rs_report (set_briefing c v s) = rs_report s"
  "rs_editor (set_briefing c v s) = rs_editor s"
  "rs_error (set_briefing c v s) = rs_error s"
  "rs_status (set_briefing c v s) = rs_status s"
  "rs_messages (set_briefing c v s) = rs_messages s"
  "rs_company (set_briefing c v s) = rs_company s"
  "rs_websocket_manager (set_briefing c v s) = rs_websocket_manager s"
  "rs_job_id (set_briefing c v s) = rs_job_id s"
  "curated_data c' (set_briefing c v s) = curated_data c' s"
  by (cases c; cases c'; simp)+

lemma get_set_briefing [simp]:
  "get_briefing c' (set_briefing c v s) = (if c' = c then Some v else get_briefing c' s)"
  by (cases c; cases c'; simp)

lemma collect_tasks_briefing:
  "get_briefing c (fst (collect_tasks cats s acc)) =
     (if c \<in> set cats \<and> curated_data c s = [] then Some [] else get_briefing c s)"
  by (induction cats s acc rule: collect_tasks.induct) auto

lemma collect_tasks_tasks:
  "snd (collect_tasks cats s acc) = acc @ filter (\<lambda>c. curated_data c s \<noteq> []) cats"
  by (induction cats s acc rule: collect_tasks.induct) auto

lemma collect_tasks_frame:
  "rs_report (fst (collect_tasks cats s acc)) = rs_report s"
  "rs_editor (fst (collect_tasks cats s acc)) = rs_editor s"
  "rs_error (fst (collect_tasks cats s acc)) = rs_error s"
  "rs_messages (fst (collect_tasks cats s acc)) = rs_messages s"
  "rs_company (fst (collect_tasks cats s acc)) = rs_company s"
  "rs_websocket_manager (fst (collect_tasks cats s acc)) = rs_websocket_manager s"
  "rs_job_id (fst (collect_tasks cats s acc)) = rs_job_id s"
  by (induction cats s acc rule: collect_tasks.induct) auto

lemma generate_category_briefing_content:
  "fst (generate_category_briefing documents category wm job response) =
     (case response of Inr text \<Rightarrow> strip text | Inl e \<Rightarrow> [])"
  by (simp add: generate_category_briefing_def Let_def split: sum.splits)

text \<open>The briefing a task stores for its category.\<close>

lemma process_briefing_state:
  "fst (process_briefing gen task (s, briefings, ev)) =
     set_briefing task (case gen task of Inr text \<Rightarrow> strip text | Inl e \<Rightarrow> []) s"
  using generate_category_briefing_content
          [of "curated_data task s" task "rs_websocket_manager s" "rs_job_id s" "gen task"]
  by (cases "generate_category_briefing (curated_data task s) task
               (rs_websocket_manager s) (rs_job_id s) (gen task)")
     (auto simp: process_briefing_def)

lemma fold_process_briefing_briefing:
  "get_briefing c (fst (fold (process_briefing gen) tasks (s, briefings, ev))) =
     (if c \<in> set tasks then Some (case gen c of Inr text \<Rightarrow> strip text | Inl e \<Rightarrow> [])
      else get_briefing c s)"
proof (induction tasks arbitrary: s briefings ev)
  case Nil
  then show ?case by simp
next
  case (Cons t tasks)
  obtain s' b' ev' where step: "process_briefing gen t (s, briefings, ev) = (s', b', ev')"
    by (cases "process_briefing gen t (s, briefings, ev)")
  with process_briefing_state [of gen t s briefings ev]
  have s': "s' = set_briefing t (case gen t of Inr text \<Rightarrow> strip text | Inl e \<Rightarrow> []) s"
    by simp
  show ?case
    using Cons.IH [of s' b' ev'] by (simp add: step s')
qed

lemma fold_process_briefing_frame:
  "rs_report (fst (fold (process_briefing gen) tasks (s, briefings, ev))) = rs_report s \<and>
   rs_editor (fst (fold (process_briefing gen) tasks (s, briefings, ev))) = rs_editor s \<and>
   rs_error (fst (fold (process_briefing gen) tasks (s, briefings, ev))) = rs_error s \<and>
   rs_messages (fst (fold (process_briefing gen) tasks (s, briefings, ev))) = rs_messages s \<and>
   rs_company (fst (fold (process_briefing gen) tasks (s, briefings, ev))) = rs_company s \<and>
   rs_websocket_manager (fst (fold (process_briefing gen) tasks (s, briefings, ev)))
     = rs_websocket_manager s \<and>
   rs_job_id (fst (fold (process_briefing gen) tasks (s, briefings, ev))) = rs_job_id s"
proof (induction tasks arbitrary: s briefings ev)
  case Nil
  then show ?case by simp
next
  case (Cons t tasks)
  obtain s' b' ev' where step: "process_briefing gen t (s, briefings, ev) = (s', b', ev')"
    by (cases "process_briefing gen t (s, briefings, ev)")
  with process_briefing_state [of gen t s briefings ev]
  have s': "s' = set_briefing t (case gen t of Inr text \<Rightarrow> strip text | Inl e \<Rightarrow> []) s"
    by simp
  show ?case
    using Cons.IH [of s' b' ev'] by (simp add: step s')
qed

lemma create_briefings_state:
  "\<exists>briefings.
     fst (create_briefings state gen) =
       (fst (fold (process_briefing gen)
               (filter (\<lambda>c. curated_data c state \<noteq> []) [Financial, News, Industry, Company])
               (fst (collect_tasks [Financial, News, Industry, Company] state []), [],
                notify (rs_websocket_manager state) (rs_job_id state)
                  (status_update status_processing (Some (ascii ''Starting research briefings'')) None
                     (Some [(ascii ''step'', JStr (ascii ''Briefing''))])))))
       \<lparr>rs_briefings := briefings\<rparr>"
proof -
  obtain s1 tasks where ct: "collect_tasks [Financial, News, Industry, Company] state [] = (s1, tasks)"
    by (cases "collect_tasks [Financial, News, Industry, Company] state []")
  have tasks: "tasks = filter (\<lambda>c. curated_data c state \<noteq> []) [Financial, News, Industry, Company]"
    using collect_tasks_tasks [of "[Financial, News, Industry, Company]" state "[]"] ct by simp
  show ?thesis
    unfolding create_briefings_def Let_def ct tasks [symmetric]
    by (auto split: prod.splits)
qed

lemma category_cases: "c \<in> set [Financial, News, Industry, Company]"
  by (cases c) simp_all

lemma get_briefing_briefings_update [simp]:
  "get_briefing c (s\<lparr>rs_briefings := b\<rparr>) = get_briefing c s"
  by (cases c) simp_all

lemma create_briefings_briefing:
  "get_briefing c (fst (create_briefings state gen)) =
     Some (if curated_data c state = [] then []
           else (case gen c of Inr text \<Rightarrow> strip text | Inl e \<Rightarrow> []))"
proof -
  from create_briefings_state [of state gen] obtain briefings where
    st: "fst (create_briefings state gen) =
       (fst (fold (process_briefing gen)
               (filter (\<lambda>c. curated_data c state \<noteq> []) [Financial, News, Industry, Company])
               (fst (collect_tasks [Financial, News, Industry, Company] state []), [],
                notify (rs_websocket_manager state) (rs_job_id state)
                  (status_update status_processing (Some (ascii ''Starting research briefings'')) None
                     (Some [(ascii ''step'', JStr (ascii ''Briefing''))])))))
       \<lparr>rs_briefings := briefings\<rparr>"
    by blast
  define cats where "cats = [Financial, News, Industry, Company]"
  define ev0 where "ev0 = notify (rs_websocket_manager state) (rs_job_id state)
                  (status_update status_processing (Some (ascii ''Starting research briefings'')) None
                     (Some [(ascii ''step'', JStr (ascii ''Briefing''))]))"
  have mem: "c \<in> set cats"
    unfolding cats_def by (rule category_cases)
  have a: "get_briefing c (fst (fold (process_briefing gen)
               (filter (\<lambda>c. curated_data c state \<noteq> []) cats)
               (fst (collect_tasks cats state []), [], ev0))) =
     (if c \<in> set (filter (\<lambda>c. curated_data c state \<noteq> []) cats)
      then Some (case gen c of Inr text \<Rightarrow> strip text | Inl e \<Rightarrow> [])
      else get_briefing c (fst (collect_tasks cats state [])))"
    by (rule fold_process_briefing_briefing)
  have b: "get_briefing c (fst (collect_tasks cats state [])) =
     (if c \<in> set cats \<and> curated_data c state = [] then Some [] else get_briefing c state)"
    by (rule collect_tasks_briefing)
  show ?thesis
    unfolding st cats_def [symmetric] ev0_def [symmetric]
    using a b mem by simp
qed

lemma create_briefings_frame:
  "rs_report (fst (create_briefings state gen)) = rs_report state \<and>
   rs_editor (fst (create_briefings state gen)) = rs_editor state \<and>
   rs_error (fst (create_briefings state gen)) = rs_error state \<and>
   rs_messages (fst (create_briefings state gen)) = rs_messages state \<and>
   rs_company (fst (create_briefings state gen)) = rs_company state \<and>
   rs_websocket_manager (fst (create_briefings state gen)) = rs_websocket_manager state \<and>
   rs_job_id (fst (create_briefings state gen)) = rs_job_id state"
proof -
  from create_briefings_state [of state gen] obtain briefings where
    st: "fst (create_briefings state gen) =
       (fst (fold (process_briefing gen)
               (filter (\<lambda>c. curated_data c state \<noteq> []) [Financial, News, Industry, Company])
               (fst (collect_tasks [Financial, News, Industry, Company] state []), [],
                notify (rs_websocket_manager state) (rs_job_id state)
                  (status_update status_processing (Some (ascii ''Starting research briefings'')) None
                     (Some [(ascii ''step'', JStr (ascii ''Briefing''))])))))
       \<lparr>rs_briefings := briefings\<rparr>"
    by blast
  show ?thesis
    unfolding st
    by (simp add: fold_process_briefing_frame collect_tasks_frame)
qed











section \<open>Properties of the editor\<close>

lemma collect_briefings_none:
  "\<forall>c. \<not> truthy (get_briefing c s) \<Longrightarrow>
   fst (collect_briefings cats s (individual_briefings, msg)) = individual_briefings"
proof (induction cats arbitrary: individual_briefings msg)
  case Nil
  then show ?case by simp
next
  case (Cons c cats)
  from Cons.prems have "\<not> truthy (get_briefing c s)" by simp
  then have "get_briefing c s = None \<or> get_briefing c s = Some []"
    by (cases "get_briefing c s") auto
  with Cons show ?case by auto
qed

lemma compile_briefings_none:
  assumes "\<forall>c. \<not> truthy (get_briefing c s)"
  shows "rs_report (fst (compile_briefings s reference_text cr sr)) = rs_report s \<and>
         rs_editor (fst (compile_briefings s reference_text cr sr)) = rs_editor s \<and>
         rs_error (fst (compile_briefings s reference_text cr sr)) = rs_error s"
proof -
  obtain ib msg where cb:
    "collect_briefings [Company, Industry, Financial, News] s
       ([], [([0x1F4D1] @ ascii '' Compilation du rapport final pour '')
              @ (case rs_company s of None \<Rightarrow> (ascii ''Entreprise inconnue'') | Some c \<Rightarrow> c)
              @ (ascii ''...'')]) = (ib, msg)"
    by (cases "collect_briefings [Company, Industry, Financial, News] s
       ([], [([0x1F4D1] @ ascii '' Compilation du rapport final pour '')
              @ (case rs_company s of None \<Rightarrow> (ascii ''Entreprise inconnue'') | Some c \<Rightarrow> c)
              @ (ascii ''...'')])")
  from collect_briefings_none [OF assms, of "[Company, Industry, Financial, News]" "[]"] cb
  have "ib = []" by (metis fst_conv)
  with cb show ?thesis
    unfolding compile_briefings_def Let_def by simp
qed

lemma editor_run_none:
  assumes "\<forall>c. \<not> truthy (get_briefing c s)" and "rs_report s = None"
  shows "rs_report (fst (editor_run s reference_text cr sr)) = None \<and>
         rs_editor (fst (editor_run s reference_text cr sr)) = rs_editor s \<and>
         rs_error (fst (editor_run s reference_text cr sr)) = rs_error s"
proof -
  obtain s1 ev where c: "compile_briefings s reference_text cr sr = (s1, ev)"
    by (cases "compile_briefings s reference_text cr sr")
  with compile_briefings_none [OF assms(1), of reference_text cr sr] assms(2)
  have "rs_report s1 = None" "rs_editor s1 = rs_editor s" "rs_error s1 = rs_error s"
    by simp_all
  with c show ?thesis by (simp add: editor_run_def)
qed

lemma process_research_without_report:
  assumes "raised graph = None"
    and "\<not> truthy (report_content (fold (\<lambda>s state. state_update state s) (yields graph) empty_state))"
  shows "process_research now job_id data graph job_status =
     (job_status,
      (job_id, status_update status_processing (Some (ascii ''Starting research'')) None None)
        # graph_updates graph @
      [(job_id, status_update status_failed
                  (Some (ascii ''La recherche s'' @ [0x27] @ ascii ''est termin'' @ [0xE9] @ ascii ''e mais aucun rapport n'' @ [0x27] @ ascii ''a '' @ [0xE9] @ ascii ''t'' @ [0xE9] @ ascii '' g'' @ [0xE9] @ ascii ''n'' @ [0xE9] @ ascii ''r'' @ [0xE9]))
                  (Some (case y_error (fold (\<lambda>s state. state_update state s) (yields graph) empty_state) of
                           Some (c # cs) \<Rightarrow> (ascii ''Erreur : '') @ (c # cs)
                         | _ \<Rightarrow> (ascii ''Aucun rapport trouv'' @ [0xE9])))
                  None)])"
  using assms
  by (auto simp: process_research_def Let_def split: option.splits list.splits)

lemma no_documents_no_report:
  assumes "\<forall>c. curated_data c state = []" and "rs_report state = None" and "rs_editor state = None"
  shows "(\<forall>c. get_briefing c (fst (create_briefings state gen)) = Some []) \<and>
         rs_report (fst (editor_run (fst (create_briefings state gen)) reference_text cr sr)) = None \<and>
         rs_editor (fst (editor_run (fst (create_briefings state gen)) reference_text cr sr)) = None \<and>
         rs_error (fst (editor_run (fst (create_briefings state gen)) reference_text cr sr))
           = rs_error state"
proof -
  let ?s1 = "fst (create_briefings state gen)"
  have b: "\<forall>c. get_briefing c ?s1 = Some []"
    using assms(1) by (simp add: create_briefings_briefing)
  then have nb: "\<forall>c. \<not> truthy (get_briefing c ?s1)" by simp
  have f: "rs_report ?s1 = None" "rs_editor ?s1 = None" "rs_error ?s1 = rs_error state"
    using create_briefings_frame [of state gen] assms(2,3) by simp_all
  from editor_run_none [OF nb f(1), of reference_text cr sr] f b show ?thesis by simp
qed


text \<open>
  Claim C8, as amended. When no category has curated documents (and the state holds no
  report yet), the briefing stage stores the empty briefing for all four categories, the
  editor produces no report, and \<open>process_research\<close>, given the editor's final state,
  leaves the registry as it is and publishes, after \<open>processing\<close> and the graph's own
  updates, a final \<open>failed\<close> update whose message says that no report was generated
  and whose error is \<open>Aucun rapport trouve\<close>, or \<open>Erreur : e\<close> when the state's
  \<open>error\<close> entry holds a non-empty text \<open>e\<close>.
\<close>

theorem no_documents_job_fails:
  assumes "\<forall>c. curated_data c state = []" and "rs_report state = None" and "rs_editor state = None"
  shows "(\<forall>c. get_briefing c (fst (create_briefings state gen)) = Some []) \<and>
         rs_report (fst (editor_run (fst (create_briefings state gen)) reference_text cr sr)) = None \<and>
         process_research now job_id data
           \<lparr>yields = [as_yielded (fst (editor_run (fst (create_briefings state gen)) reference_text cr sr))],
            graph_updates = upd, raised = None\<rparr> job_status
         = (job_status,
            (job_id, status_update status_processing (Some (ascii ''Starting research'')) None None)
              # upd @
            [(job_id, status_update status_failed
                  (Some (ascii ''La recherche s'' @ [0x27] @ ascii ''est termin'' @ [0xE9] @ ascii ''e mais aucun rapport n'' @ [0x27] @ ascii ''a '' @ [0xE9] @ ascii ''t'' @ [0xE9] @ ascii '' g'' @ [0xE9] @ ascii ''n'' @ [0xE9] @ ascii ''r'' @ [0xE9]))
                  (Some (case rs_error state of
                           Some (c # cs) \<Rightarrow> (ascii ''Erreur : '') @ (c # cs)
                         | _ \<Rightarrow> (ascii ''Aucun rapport trouv'' @ [0xE9])))
                  None)])"
proof -
  let ?s2 = "fst (editor_run (fst (create_briefings state gen)) reference_text cr sr)"
  let ?g = "\<lparr>yields = [as_yielded ?s2], graph_updates = upd, raised = None\<rparr>"
  note n = no_documents_no_report [OF assms, of gen reference_text cr sr]
  have merged: "fold (\<lambda>s state. state_update state s) (yields ?g) empty_state
      = \<lparr>y_report = None, y_editor = None, y_error = rs_error state\<rparr>"
    using n by (simp add: as_yielded_def state_update_def empty_state_def split: option.splits)
  have nr: "\<not> truthy (report_content (fold (\<lambda>s state. state_update state s) (yields ?g) empty_state))"
    unfolding merged by (simp add: report_content_def)
  have "raised ?g = None" by simp
  from process_research_without_report [OF this nr, of now job_id data job_status] n
  show ?thesis unfolding merged by simp
qed

text \<open>
  The job of the examples without any curated document: the updates are \<open>processing\<close>
  and \<open>failed\<close> with the error \<open>Aucun rapport trouve\<close>.
\<close>

theorem no_documents_job_fails_witness:
  "snd (process_research ex_now ex_job ex_request
      \<lparr>yields = [as_yielded (fst (editor_run (fst (create_briefings ex_input_state ex_gen)) []
                                   (Inr (ascii ''x'')) (Inr [])))],
       graph_updates = [], raised = None\<rparr> Map.empty)
   = [(ex_job, status_update status_processing (Some (ascii ''Starting research'')) None None),
      (ex_job, status_update status_failed
                  (Some (ascii ''La recherche s'' @ [0x27] @ ascii ''est termin'' @ [0xE9] @ ascii ''e mais aucun rapport n'' @ [0x27] @ ascii ''a '' @ [0xE9] @ ascii ''t'' @ [0xE9] @ ascii '' g'' @ [0xE9] @ ascii ''n'' @ [0xE9] @ ascii ''r'' @ [0xE9]))
                  (Some (ascii ''Aucun rapport trouv'' @ [0xE9])) None)]"
proof -
  have h: "\<forall>c. curated_data c ex_input_state = []" "rs_report ex_input_state = None"
    "rs_editor ex_input_state = None"
  proof -
    show "\<forall>c. curated_data c ex_input_state = []"
    proof
      fix c show "curated_data c ex_input_state = []"
        by (cases c) (simp_all add: ex_input_state_def)
    qed
  qed (simp_all add: ex_input_state_def)
  have e: "rs_error ex_input_state = None" by (simp add: ex_input_state_def)
  from no_documents_job_fails [OF h, of ex_gen "[]" "Inr (ascii ''x'')" "Inr []" ex_now ex_job
         ex_request "[]" Map.empty] e
  show ?thesis by simp
qed

text \<open>
  Claim C8 as stated fails when the crawl had failed: the final \<open>failed\<close> update then
  carries the crawl's error (\<open>Erreur : timeout\<close>), not an error saying that no report
  could be produced.
\<close>

theorem no_documents_after_crawl_failure_reports_crawl_error:
  "upd_status (msg_data (snd (last (snd (process_research ex_now ex_job ex_request
      \<lparr>yields = [as_yielded (fst (editor_run (fst (create_briefings ex_crawl_failed_state ex_gen)) []
                                   (Inr (ascii ''x'')) (Inr [])))],
       graph_updates = [], raised = None\<rparr> Map.empty))))) = status_failed \<and>
   upd_error (msg_data (snd (last (snd (process_research ex_now ex_job ex_request
      \<lparr>yields = [as_yielded (fst (editor_run (fst (create_briefings ex_crawl_failed_state ex_gen)) []
                                   (Inr (ascii ''x'')) (Inr [])))],
       graph_updates = [], raised = None\<rparr> Map.empty)))))
     = Some ((ascii ''Erreur : '') @ ascii ''timeout'') \<and>
   (ascii ''Erreur : '') @ ascii ''timeout'' \<noteq> (ascii ''Aucun rapport trouv'' @ [0xE9])"
proof -
  let ?s2 = "fst (editor_run (fst (create_briefings ex_crawl_failed_state ex_gen)) []
                                   (Inr (ascii ''x'')) (Inr []))"
  let ?g = "\<lparr>yields = [as_yielded ?s2], graph_updates = [], raised = None\<rparr>"
  have h: "\<forall>c. curated_data c ex_crawl_failed_state = []" "rs_report ex_crawl_failed_state = None"
    "rs_editor ex_crawl_failed_state = None"
  proof -
    show "\<forall>c. curated_data c ex_crawl_failed_state = []"
    proof
      fix c show "curated_data c ex_crawl_failed_state = []"
        by (cases c) (simp_all add: ex_crawl_failed_state_def ex_input_state_def)
    qed
  qed (simp_all add: ex_crawl_failed_state_def ex_input_state_def)
  note n = no_documents_no_report [OF h, of ex_gen "[]" "Inr (ascii ''x'')" "Inr []"]
  have merged: "fold (\<lambda>s state. state_update state s) (yields ?g) empty_state
      = \<lparr>y_report = None, y_editor = None, y_error = Some (ascii ''timeout'')\<rparr>"
    using n
    by (simp add: as_yielded_def state_update_def empty_state_def ex_crawl_failed_state_def
          split: option.splits)
  have nr: "\<not> truthy (report_content (fold (\<lambda>s state. state_update state s) (yields ?g) empty_state))"
    unfolding merged by (simp add: report_content_def)
  have "raised ?g = None" by simp
  from process_research_without_report [OF this nr, of ex_now ex_job ex_request Map.empty]
  show ?thesis
    unfolding merged by (simp add: status_update_def ascii_def)
qed

section \<open>Properties of strings\<close>

lemma strip_eq_Nil_iff: "strip s = [] \<longleftrightarrow> (\<forall>c\<in>set s. isspace c)"
proof
  assume "strip s = []"
  then have "dropWhile isspace (rev (dropWhile isspace s)) = []"
    by (simp add: strip_def)
  then have all: "\<forall>c\<in>set (dropWhile isspace s). isspace c"
    by simp
  show "\<forall>c\<in>set s. isspace c"
  proof (cases "dropWhile isspace s")
    case Nil
    then show ?thesis by simp
  next
    case (Cons x xs)
    then have "\<not> isspace x" using hd_dropWhile [of isspace s] by simp
    with all Cons show ?thesis by simp
  qed
next
  assume "\<forall>c\<in>set s. isspace c"
  then show "strip s = []"
    by (auto simp: strip_def dest: set_dropWhileD)
qed

lemma dropWhile_rev_dropWhile:
  "dropWhile P (rev (dropWhile P (rev (dropWhile P s)))) = rev (dropWhile P (rev (dropWhile P s)))"
proof -
  let ?d = "dropWhile P s"
  let ?r = "rev (dropWhile P (rev ?d))"
  have split: "?d = ?r @ rev (takeWhile P (rev ?d))"
    by (metis rev_append rev_rev_ident takeWhile_dropWhile_id)
  show ?thesis
  proof (cases ?r)
    case Nil
    then show ?thesis by (simp only: dropWhile.simps(1))
  next
    case (Cons x xs)
    with split have "hd ?d = x" "?d \<noteq> []"
      by (metis hd_append2 list.sel(1) list.distinct(1), metis append_is_Nil_conv list.distinct(1))
    then have "\<not> P x" using hd_dropWhile [of P s] by auto
    with Cons show ?thesis by simp
  qed
qed

lemma strip_idem: "strip (strip s) = strip s"
  by (simp add: strip_def dropWhile_rev_dropWhile)

lemma set_join: "b \<in> set xs \<Longrightarrow> set b \<subseteq> set (join sep xs)"
  by (induction sep xs rule: join.induct) auto

lemma strip_join_nonempty:
  assumes "b \<in> set xs" and "strip b \<noteq> []"
  shows "strip (join sep xs) \<noteq> []"
proof -
  from assms(2) obtain c where "c \<in> set b" "\<not> isspace c"
    by (auto simp: strip_eq_Nil_iff)
  with set_join [OF assms(1), of sep] show ?thesis
    by (auto simp: strip_eq_Nil_iff)
qed


section \<open>Properties of the streamed clean-up\<close>

lemma sweep_loop_groups:
  assumes "[] \<notin> set cur"
    and "\<forall>k. 0 < k \<and> k \<le> length cur \<longrightarrow> \<not> flush_condition (concat (take k cur))"
  shows "\<exists>groups. sweep_loop wm job (map (\<lambda>t. Chunk None (Some t)) texts
                               @ Chunk (Some (ascii ''stop'')) c # rest) acc (concat cur) ev
      = (Inr (acc @ concat texts),
         ev @ concat (map (\<lambda>g. notify wm job (report_chunk (concat g))) groups)) \<and>
     concat groups = cur @ filter (\<lambda>t. t \<noteq> []) texts \<and> [] \<notin> set groups \<and>
     (\<forall>g\<in>set (butlast groups). flush_condition (concat g)) \<and>
     (\<forall>g\<in>set groups. \<forall>k. 0 < k \<and> k < length g \<longrightarrow> \<not> flush_condition (concat (take k g)))"
  using assms
proof (induction texts arbitrary: cur acc ev)
  case Nil
  show ?case
  proof (cases "cur = []")
    case True
    then show ?thesis by (intro exI [of _ "[]"]) simp
  next
    case False
    with Nil.prems(1) have "concat cur \<noteq> []" by (cases cur) auto
    with False Nil.prems(2) show ?thesis by (intro exI [of _ "[cur]"]) simp
  qed
next
  case (Cons t texts)
  show ?case
  proof (cases t)
    case Nil
    from Cons.IH [OF Cons.prems, of acc ev] obtain groups where
      "sweep_loop wm job (map (\<lambda>t. Chunk None (Some t)) texts
                               @ Chunk (Some (ascii ''stop'')) c # rest) acc (concat cur) ev
      = (Inr (acc @ concat texts),
         ev @ concat (map (\<lambda>g. notify wm job (report_chunk (concat g))) groups))"
      "concat groups = cur @ filter (\<lambda>t. t \<noteq> []) texts" "[] \<notin> set groups"
      "\<forall>g\<in>set (butlast groups). flush_condition (concat g)"
      "\<forall>g\<in>set groups. \<forall>k. 0 < k \<and> k < length g \<longrightarrow> \<not> flush_condition (concat (take k g))"
      by blast
    with Nil show ?thesis by (intro exI [of _ groups]) simp
  next
    case (Cons x xs)
    have buf: "concat cur @ t = concat (cur @ [t])" by simp
    show ?thesis
    proof (cases "flush_condition (concat cur @ t)")
      case True
      have e: "[] \<notin> set ([] :: str list)"
        "\<forall>k. 0 < k \<and> k \<le> length ([] :: str list)
            \<longrightarrow> \<not> flush_condition (concat (take k ([] :: str list)))"
        by simp_all
      from Cons.IH [OF e, of "acc @ t" "ev @ notify wm job (report_chunk (concat cur @ t))"]
      obtain groups where g:
        "sweep_loop wm job (map (\<lambda>t. Chunk None (Some t)) texts
                               @ Chunk (Some (ascii ''stop'')) c # rest) (acc @ t) (concat [])
            (ev @ notify wm job (report_chunk (concat cur @ t)))
         = (Inr ((acc @ t) @ concat texts),
            (ev @ notify wm job (report_chunk (concat cur @ t)))
              @ concat (map (\<lambda>g. notify wm job (report_chunk (concat g))) groups))"
        "concat groups = [] @ filter (\<lambda>t. t \<noteq> []) texts" "[] \<notin> set groups"
        "\<forall>g\<in>set (butlast groups). flush_condition (concat g)"
        "\<forall>g\<in>set groups. \<forall>k. 0 < k \<and> k < length g \<longrightarrow> \<not> flush_condition (concat (take k g))"
        by blast
      have pre: "\<forall>k. 0 < k \<and> k < length (cur @ [t])
                   \<longrightarrow> \<not> flush_condition (concat (take k (cur @ [t])))"
        using Cons.prems(2) by simp
      have run: "sweep_loop wm job (map (\<lambda>t. Chunk None (Some t)) (t # texts)
                               @ Chunk (Some (ascii ''stop'')) c # rest) acc (concat cur) ev
         = (Inr (acc @ concat (t # texts)),
            ev @ concat (map (\<lambda>g. notify wm job (report_chunk (concat g))) ((cur @ [t]) # groups)))"
        using g(1) True Cons by (simp add: ascii_def)
      have cat: "concat ((cur @ [t]) # groups) = cur @ filter (\<lambda>t. t \<noteq> []) (t # texts)"
        using g(2) Cons by simp
      have ne: "[] \<notin> set ((cur @ [t]) # groups)"
        using g(3) by simp
      have fl: "\<forall>g\<in>set (butlast ((cur @ [t]) # groups)). flush_condition (concat g)"
        using g(4) True by simp
      have mn: "\<forall>g\<in>set ((cur @ [t]) # groups). \<forall>k. 0 < k \<and> k < length g
                  \<longrightarrow> \<not> flush_condition (concat (take k g))"
        using g(5) pre by (simp del: take_append)
      from run cat ne fl mn show ?thesis
        by (intro exI [of _ "(cur @ [t]) # groups"] conjI)
    next
      case False
      have p1: "[] \<notin> set (cur @ [t])"
        using Cons.prems(1) Cons by simp
      have p2: "\<forall>k. 0 < k \<and> k \<le> length (cur @ [t])
                  \<longrightarrow> \<not> flush_condition (concat (take k (cur @ [t])))"
      proof (intro allI impI)
        fix k assume k: "0 < k \<and> k \<le> length (cur @ [t])"
        show "\<not> flush_condition (concat (take k (cur @ [t])))"
        proof (cases "k \<le> length cur")
          case True
          with k Cons.prems(2) show ?thesis by simp
        next
          case nk: False
          with k have "k = Suc (length cur)" by simp
          with False show ?thesis by simp
        qed
      qed
      from Cons.IH [OF p1 p2, of "acc @ t" ev] obtain groups where g:
        "sweep_loop wm job (map (\<lambda>t. Chunk None (Some t)) texts
                               @ Chunk (Some (ascii ''stop'')) c # rest) (acc @ t) (concat (cur @ [t])) ev
         = (Inr ((acc @ t) @ concat texts),
            ev @ concat (map (\<lambda>g. notify wm job (report_chunk (concat g))) groups))"
        "concat groups = (cur @ [t]) @ filter (\<lambda>t. t \<noteq> []) texts" "[] \<notin> set groups"
        "\<forall>g\<in>set (butlast groups). flush_condition (concat g)"
        "\<forall>g\<in>set groups. \<forall>k. 0 < k \<and> k < length g \<longrightarrow> \<not> flush_condition (concat (take k g))"
        by blast
      have run: "sweep_loop wm job (map (\<lambda>t. Chunk None (Some t)) (t # texts)
                               @ Chunk (Some (ascii ''stop'')) c # rest) acc (concat cur) ev
         = (Inr (acc @ concat (t # texts)),
            ev @ concat (map (\<lambda>g. notify wm job (report_chunk (concat g))) groups))"
        using g(1) False Cons by (simp add: ascii_def)
      have cat: "concat groups = cur @ filter (\<lambda>t. t \<noteq> []) (t # texts)"
        using g(2) Cons by simp
      from run cat g(3,4,5) show ?thesis
        by (intro exI [of _ groups] conjI)
    qed
  qed
qed


section \<open>Properties of delivery\<close>

lemma broadcast_all_sent:
  assumes "conns job_id = Some S" and "\<forall>c\<in>set S. send_text c = Sent"
  shows "conns_after (broadcast_to_job send_text (\<lambda>c. []) job_id message conns) = conns"
    and "delivered (broadcast_to_job send_text (\<lambda>c. []) job_id message conns) = map (\<lambda>c. (c, message)) S"
proof -
  show "conns_after (broadcast_to_job send_text (\<lambda>c. []) job_id message conns) = conns"
  proof
    fix j
    show "conns_after (broadcast_to_job send_text (\<lambda>c. []) job_id message conns) j = conns j"
      using assms
        broadcast_conns_after [where conns = conns and job_id = job_id and S = S
                                and send_text = send_text and message = message]
        broadcast_other [of j job_id send_text message conns]
      by (cases "j = job_id") auto
  qed
  show "delivered (broadcast_to_job send_text (\<lambda>c. []) job_id message conns) = map (\<lambda>c. (c, message)) S"
    using assms
      broadcast_delivered [where conns = conns and job_id = job_id and S = S
                            and send_text = send_text and message = message]
    by simp
qed

lemma observed_one:
  "distinct S \<Longrightarrow> ws \<in> set S \<Longrightarrow> observed ws (map (\<lambda>c. (c, message)) S @ later) = message # observed ws later"
  by (induction S) (auto simp: observed_def filter_empty_conv)

lemma publish_all_observed:
  assumes "conns j = Some S" and "distinct S" and "ws \<in> set S"
    and "\<forall>c\<in>set S. send_text c = Sent" and "\<forall>u\<in>set updates. fst u = j"
  shows "observed ws (snd (publish_all send_text updates conns)) = map snd updates"
  using assms(5)
proof (induction updates)
  case Nil
  then show ?case by (simp add: observed_def)
next
  case (Cons u updates)
  obtain m where u: "u = (j, m)" using Cons.prems by (cases u) auto
  from Cons have IH: "observed ws (snd (publish_all send_text updates conns)) = map snd updates"
    by simp
  show ?case
    using IH observed_one [OF assms(2,3)]
    by (cases "publish_all send_text updates conns")
       (simp add: u
          broadcast_all_sent [where conns = conns and job_id = j and S = S
                               and send_text = send_text, OF assms(1,4)])
qed

section \<open>Properties of the editor's report\<close>

lemma category_name_inj: "category_name a = category_name b \<longleftrightarrow> a = b"
  by (cases a; cases b; simp add: ascii_def)

lemma collect_briefings_map_of:
  "map_of (fst (collect_briefings cats s (ib, msg))) (category_name c) =
     (if c \<in> set cats \<and> truthy (get_briefing c s) then get_briefing c s
      else map_of ib (category_name c))"
proof (induction cats arbitrary: ib msg)
  case Nil
  then show ?case by simp
next
  case (Cons a cats)
  show ?case
  proof (cases "get_briefing a s")
    case None
    with Cons show ?thesis by auto
  next
    case (Some b)
    show ?thesis
    proof (cases b)
      case Nil
      with Some Cons show ?thesis by auto
    next
      case (Cons x xs)
      with Some Cons.IH show ?thesis
        by (auto simp: update_conv' category_name_inj)
    qed
  qed
qed

lemma collect_briefings_found:
  assumes "get_briefing c s = Some b" and "b \<noteq> []" and "c \<in> set cats"
  shows "b \<in> set (map snd (fst (collect_briefings cats s (ib, msg))))"
proof -
  from collect_briefings_map_of [of cats s ib msg c] assms
  have "map_of (fst (collect_briefings cats s (ib, msg))) (category_name c) = Some b"
    by simp
  from map_of_SomeD [OF this] show ?thesis by force
qed

lemma compile_briefings_found:
  assumes "get_briefing c s = Some b" and "b \<noteq> []"
  shows "\<exists>ib msg. b \<in> set (map snd ib) \<and>
           compile_briefings s reference_text cr sr =
             ((fst (edit_report s ib
                      (case rs_company s of None \<Rightarrow> (ascii ''Entreprise inconnue'') | Some c \<Rightarrow> c)
                      reference_text cr sr))
                \<lparr>rs_messages :=
                   rs_messages (fst (edit_report s ib
                      (case rs_company s of None \<Rightarrow> (ascii ''Entreprise inconnue'') | Some c \<Rightarrow> c)
                      reference_text cr sr)) @ [join ([0xA]) msg]\<rparr>,
              (notify (rs_websocket_manager s) (rs_job_id s)
                 (editor_step ((ascii ''D'' @ [0xE9] @ ascii ''marrage de la compilation du rapport pour '')
                      @ (case rs_company s of None \<Rightarrow> (ascii ''Entreprise inconnue'') | Some c \<Rightarrow> c))
                    (ascii ''initialisation''))
               @ notify (rs_websocket_manager s) (rs_job_id s)
                   (editor_step (ascii ''Collecte des synth'' @ [0xE8] @ ascii ''ses de sections'') (ascii ''collecte_synth'' @ [0xE8] @ ascii ''ses'')))
              @ snd (snd (edit_report s ib
                      (case rs_company s of None \<Rightarrow> (ascii ''Entreprise inconnue'') | Some c \<Rightarrow> c)
                      reference_text cr sr)))"
proof -
  let ?company = "case rs_company s of None \<Rightarrow> (ascii ''Entreprise inconnue'') | Some c \<Rightarrow> c"
  obtain ib msg where cb:
    "collect_briefings [Company, Industry, Financial, News] s
       ([], [([0x1F4D1] @ ascii '' Compilation du rapport final pour '') @ ?company @ (ascii ''...'')]) = (ib, msg)"
    by (cases "collect_briefings [Company, Industry, Financial, News] s
       ([], [([0x1F4D1] @ ascii '' Compilation du rapport final pour '') @ ?company @ (ascii ''...'')])")
  have "c \<in> set [Company, Industry, Financial, News]" by (cases c) simp_all
  from collect_briefings_found [OF assms this, of "[]"
         "[([0x1F4D1] @ ascii '' Compilation du rapport final pour '') @ ?company @ (ascii ''...'')]"] cb
  have found: "b \<in> set (map snd ib)" by simp
  then have "ib \<noteq> []" by auto
  with cb found show ?thesis
    unfolding compile_briefings_def Let_def
    by (intro exI [of _ ib] exI [of _ msg]) (simp split: prod.splits)
qed


section \<open>The streaming scenario\<close>

lemma notify_present: "j \<noteq> [] \<Longrightarrow> notify True (Some j) m = [(j, m)]"
  by (cases j) (simp_all add: notify_def)

lemma scenario_sweep:
  assumes "j \<noteq> []"
  shows "content_sweep True (Some j) content (Inr ex_stream)
           = (ascii ''Section 1.'', [(j, report_chunk (ascii ''Section 1.'' @ [10]))])"
proof -
  have f1: "\<not> flush_condition (ascii ''Sec'')"
    by (simp add: flush_condition_def ascii_def)
  have f2: "flush_condition (ascii ''Sec'' @ ascii ''tion 1.'' @ [10])"
    by (simp add: flush_condition_def ascii_def)
  have s: "strip (ascii ''Sec'' @ ascii ''tion 1.'' @ [10]) = ascii ''Section 1.''"
    by (simp add: strip_def isspace_def ascii_def)
  have c: "ascii ''Sec'' @ ascii ''tion 1.'' @ [10] = ascii ''Section 1.'' @ [10]"
    by (simp add: ascii_def)
  have l: "sweep_loop True (Some j) ex_stream [] [] []
      = (Inr (ascii ''Sec'' @ ascii ''tion 1.'' @ [10]),
         [(j, report_chunk (ascii ''Sec'' @ ascii ''tion 1.'' @ [10]))])"
    using f1 f2 notify_present [OF assms]
    by (simp add: ex_stream_def ascii_def)
  show ?thesis
    unfolding content_sweep_def using l s c by simp
qed

text \<open>Each of two sentences is sent as soon as it has arrived; nothing is left at the stop signal.\<close>

lemma two_sentences_two_chunks:
  assumes "j \<noteq> []"
  shows "content_sweep True (Some j) content (Inr ex_two_sentences)
           = (ascii ''Hello world. Goodbye all.'',
              [(j, report_chunk (ascii ''Hello world. '')),
               (j, report_chunk (ascii ''Goodbye all. ''))])"
proof -
  have f1: "flush_condition (ascii ''Hello world. '')"
    by (simp add: flush_condition_def ascii_def)
  have f2: "flush_condition (ascii ''Goodbye all. '')"
    by (simp add: flush_condition_def ascii_def)
  have s: "strip (ascii ''Hello world. '' @ ascii ''Goodbye all. '') = ascii ''Hello world. Goodbye all.''"
    by (simp add: strip_def isspace_def ascii_def)
  have l: "sweep_loop True (Some j) ex_two_sentences [] [] []
      = (Inr (ascii ''Hello world. '' @ ascii ''Goodbye all. ''),
         [(j, report_chunk (ascii ''Hello world. '')), (j, report_chunk (ascii ''Goodbye all. ''))])"
    using f1 f2 notify_present [OF assms]
    by (simp add: ex_two_sentences_def ascii_def)
  show ?thesis
    unfolding content_sweep_def using l s by simp
qed

lemma compile_content_ok: "strip t \<noteq> [] \<Longrightarrow> compile_content ib reference_text (Inr t) \<noteq> []"
  by (simp add: compile_content_def Let_def)

lemma scenario_editor_run:
  assumes "get_briefing cat s = Some b" and "b \<noteq> []" and "rs_websocket_manager s"
    and "rs_job_id s = Some j" and "j \<noteq> []" and "strip t \<noteq> []"
  shows "snd (editor_run s reference_text (Inr t) (Inr ex_stream)) =
     [(j, editor_step ((ascii ''D'' @ [0xE9] @ ascii ''marrage de la compilation du rapport pour '')
                        @ (case rs_company s of None \<Rightarrow> (ascii ''Entreprise inconnue'') | Some c \<Rightarrow> c))
            (ascii ''initialisation'')),
      (j, editor_step (ascii ''Collecte des synth'' @ [0xE8] @ ascii ''ses de sections'') (ascii ''collecte_synth'' @ [0xE8] @ ascii ''ses'')),
      (j, editor_step (ascii ''Compilation du rapport de recherche initial'') (ascii ''compilation'')),
      (j, editor_step (ascii ''Nettoyage et organisation du rapport'') (ascii ''nettoyage'')),
      (j, editor_step (ascii ''Mise en forme du rapport final'') (ascii ''mise_en_forme'')),
      (j, report_chunk (ascii ''Section 1.'' @ [10])),
      (j, status_update status_editor_complete (Some (ascii ''Rapport de recherche termin'' @ [0xE9])) None
            (Some [((ascii ''step''), JStr ([0xC9] @ ascii ''diteur'')),
                   ((ascii ''report''), JStr (ascii ''Section 1.'')),
                   ((ascii ''company''),
                    JStr (case rs_company s of None \<Rightarrow> (ascii ''Entreprise inconnue'') | Some c \<Rightarrow> c)),
                   ((ascii ''is_final''), JBool True),
                   ((ascii ''status''), JStr (ascii ''termin'' @ [0xE9]))]))]"
    and "rs_report (fst (editor_run s reference_text (Inr t) (Inr ex_stream)))
           = Some (ascii ''Section 1.'')"
    and "rs_editor (fst (editor_run s reference_text (Inr t) (Inr ex_stream)))
           = Some (Some (ascii ''Section 1.''))"
proof -
  let ?company = "case rs_company s of None \<Rightarrow> (ascii ''Entreprise inconnue'') | Some c \<Rightarrow> c"
  from compile_briefings_found [OF assms(1,2), of reference_text "Inr t" "Inr ex_stream"]
  obtain ib msg where cb:
    "compile_briefings s reference_text (Inr t) (Inr ex_stream) =
             ((fst (edit_report s ib ?company reference_text (Inr t) (Inr ex_stream)))
                \<lparr>rs_messages :=
                   rs_messages (fst (edit_report s ib ?company reference_text (Inr t) (Inr ex_stream)))
                     @ [join ([0xA]) msg]\<rparr>,
              (notify (rs_websocket_manager s) (rs_job_id s)
                 (editor_step ((ascii ''D'' @ [0xE9] @ ascii ''marrage de la compilation du rapport pour '') @ ?company)
                    (ascii ''initialisation''))
               @ notify (rs_websocket_manager s) (rs_job_id s)
                   (editor_step (ascii ''Collecte des synth'' @ [0xE8] @ ascii ''ses de sections'') (ascii ''collecte_synth'' @ [0xE8] @ ascii ''ses'')))
              @ snd (snd (edit_report s ib ?company reference_text (Inr t) (Inr ex_stream))))"
    by blast
  have ne: "strip (ascii ''Section 1.'') \<noteq> []"
    by (simp add: strip_eq_Nil_iff isspace_def ascii_def)
  have er: "edit_report s ib ?company reference_text (Inr t) (Inr ex_stream) =
      (s\<lparr>rs_report := Some (ascii ''Section 1.''),
         rs_status := Some status_editor_complete,
         rs_editor := Some (Some (ascii ''Section 1.''))\<rparr>,
       ascii ''Section 1.'',
       [(j, editor_step (ascii ''Compilation du rapport de recherche initial'') (ascii ''compilation'')),
        (j, editor_step (ascii ''Nettoyage et organisation du rapport'') (ascii ''nettoyage'')),
        (j, editor_step (ascii ''Mise en forme du rapport final'') (ascii ''mise_en_forme'')),
        (j, report_chunk (ascii ''Section 1.'' @ [10])),
        (j, status_update status_editor_complete (Some (ascii ''Rapport de recherche termin'' @ [0xE9])) None
            (Some [((ascii ''step''), JStr ([0xC9] @ ascii ''diteur'')),
                   ((ascii ''report''), JStr (ascii ''Section 1.'')),
                   ((ascii ''company''), JStr ?company),
                   ((ascii ''is_final''), JBool True),
                   ((ascii ''status''), JStr (ascii ''termin'' @ [0xE9]))]))])"
    unfolding edit_report_def Let_def
    using compile_content_ok [OF assms(6), of ib reference_text] ne
    by (simp add: assms(3,4) notify_present [OF assms(5)] scenario_sweep [OF assms(5)])
  show "snd (editor_run s reference_text (Inr t) (Inr ex_stream)) =
     [(j, editor_step ((ascii ''D'' @ [0xE9] @ ascii ''marrage de la compilation du rapport pour '') @ ?company)
            (ascii ''initialisation'')),
      (j, editor_step (ascii ''Collecte des synth'' @ [0xE8] @ ascii ''ses de sections'') (ascii ''collecte_synth'' @ [0xE8] @ ascii ''ses'')),
      (j, editor_step (ascii ''Compilation du rapport de recherche initial'') (ascii ''compilation'')),
      (j, editor_step (ascii ''Nettoyage et organisation du rapport'') (ascii ''nettoyage'')),
      (j, editor_step (ascii ''Mise en forme du rapport final'') (ascii ''mise_en_forme'')),
      (j, report_chunk (ascii ''Section 1.'' @ [10])),
      (j, status_update status_editor_complete (Some (ascii ''Rapport de recherche termin'' @ [0xE9])) None
            (Some [((ascii ''step''), JStr ([0xC9] @ ascii ''diteur'')),
                   ((ascii ''report''), JStr (ascii ''Section 1.'')),
                   ((ascii ''company''), JStr ?company),
                   ((ascii ''is_final''), JBool True),
                   ((ascii ''status''), JStr (ascii ''termin'' @ [0xE9]))]))]"
    unfolding editor_run_def cb er
    by (simp add: assms(3,4) notify_present [OF assms(5)])
  show "rs_report (fst (editor_run s reference_text (Inr t) (Inr ex_stream)))
           = Some (ascii ''Section 1.'')"
    unfolding editor_run_def cb er by simp
  show "rs_editor (fst (editor_run s reference_text (Inr t) (Inr ex_stream)))
           = Some (Some (ascii ''Section 1.''))"
    unfolding editor_run_def cb er by simp
qed


lemma status_chunk_distinct:
  "status_processing \<noteq> status_report_chunk" "status_editor_complete \<noteq> status_report_chunk"
  "status_completed \<noteq> status_report_chunk"
  by (simp_all add: status_processing_def status_report_chunk_def status_editor_complete_def
        status_completed_def ascii_def)

lemma process_research_with_report:
  assumes "raised graph = None"
    and "report_content (fold (\<lambda>s state. state_update state s) (yields graph) empty_state) = Some r"
    and "r \<noteq> []"
  shows "snd (process_research now job_id data graph job_status) =
     (job_id, status_update status_processing (Some (ascii ''Starting research'')) None None)
       # graph_updates graph @
     [(job_id, status_update status_completed (Some (ascii ''Recherche termin'' @ [0xE9] @ ascii ''e avec succ'' @ [0xE8] @ ascii ''s'')) None
                 (Some [((ascii ''report''), JStr r), ((ascii ''company''), JStr (rq_company data))]))]"
  using assms by (cases r) (simp_all add: process_research_def Let_def)

text \<open>
  Claim C3, as amended. For a stream of chunks followed by the stop signal,
  \<open>content_sweep\<close> returns the stripped concatenation of the chunks, and the
  \<open>report_chunk\<close> updates it sends are those of consecutive groups of the non-empty
  chunks, one update per group, carrying the group's concatenation. A group is closed by
  the first chunk with which the buffer contains \<open>.\<close>, \<open>!\<close>, \<open>?\<close> or a newline and
  is longer than 10 characters: every group but the last meets that condition, and no
  group meets it before its last chunk; so a chunk is sent as soon as the condition is
  met, and only then. What is left in the buffer at the stop signal is the last group,
  and it is sent too. In the scenario where the stream
  delivers \<open>Sec\<close>, then \<open>tion 1.\<close> with a newline, then stop, for a job with a manager,
  a briefing and a non-blank compiled report, a subscriber of the job, whose
  registration no other task changes, observes every
  update of the run, among them exactly one chunk update, which carries the whole text
  \<open>Section 1.\<close> with its newline (the first chunk alone does not meet the flush
  condition), and as last update \<open>completed\<close> with the report \<open>Section 1.\<close>.
\<close>

theorem streamed_cleanup_flushes_chunks:
  "(\<exists>groups. content_sweep wm job content
             (Inr (map (\<lambda>t. Chunk None (Some t)) texts @ Chunk (Some (ascii ''stop'')) c # rest))
           = (strip (concat texts),
              concat (map (\<lambda>g. notify wm job (report_chunk (concat g))) groups)) \<and>
          concat groups = filter (\<lambda>t. t \<noteq> []) texts \<and> [] \<notin> set groups \<and>
          (\<forall>g\<in>set (butlast groups). flush_condition (concat g)) \<and>
          (\<forall>g\<in>set groups. \<forall>k. 0 < k \<and> k < length g
             \<longrightarrow> \<not> flush_condition (concat (take k g)))) \<and>
   (get_briefing cat s = Some b \<and> b \<noteq> [] \<and> rs_websocket_manager s \<and> rs_job_id s = Some j \<and>
    j \<noteq> [] \<and> strip t \<noteq> [] \<longrightarrow>
    (let run = editor_run s reference_text (Inr t) (Inr ex_stream);
         upd = snd (process_research now j data
                      \<lparr>yields = [as_yielded (fst run)], graph_updates = snd run, raised = None\<rparr>
                      job_status);
         seen = observed ws (snd (publish_all (\<lambda>c. Sent) upd (Map.empty(j \<mapsto> [ws]))))
     in seen = map snd upd \<and>
        filter (\<lambda>m. upd_status (msg_data m) = status_report_chunk) seen
          = [report_chunk (ascii ''Section 1.'' @ [10])] \<and>
        last seen = status_update status_completed (Some (ascii ''Recherche termin'' @ [0xE9] @ ascii ''e avec succ'' @ [0xE8] @ ascii ''s'')) None
                      (Some [((ascii ''report''), JStr (ascii ''Section 1.'')),
                             ((ascii ''company''), JStr (rq_company data))]) \<and>
        rs_report (fst run) = Some (ascii ''Section 1.'')))"
proof (intro conjI impI)
  have e: "[] \<notin> set ([] :: str list)"
    "\<forall>k. 0 < k \<and> k \<le> length ([] :: str list)
       \<longrightarrow> \<not> flush_condition (concat (take k ([] :: str list)))"
    by simp_all
  from sweep_loop_groups [OF e, of wm job texts c rest "[]" "[]"]
  obtain groups where
    "sweep_loop wm job (map (\<lambda>t. Chunk None (Some t)) texts
                               @ Chunk (Some (ascii ''stop'')) c # rest) [] (concat []) []
      = (Inr ([] @ concat texts),
         [] @ concat (map (\<lambda>g. notify wm job (report_chunk (concat g))) groups))"
    "concat groups = [] @ filter (\<lambda>t. t \<noteq> []) texts" "[] \<notin> set groups"
    "\<forall>g\<in>set (butlast groups). flush_condition (concat g)"
    "\<forall>g\<in>set groups. \<forall>k. 0 < k \<and> k < length g \<longrightarrow> \<not> flush_condition (concat (take k g))"
    by blast
  then show "\<exists>groups. content_sweep wm job content
             (Inr (map (\<lambda>t. Chunk None (Some t)) texts @ Chunk (Some (ascii ''stop'')) c # rest))
           = (strip (concat texts),
              concat (map (\<lambda>g. notify wm job (report_chunk (concat g))) groups)) \<and>
          concat groups = filter (\<lambda>t. t \<noteq> []) texts \<and> [] \<notin> set groups \<and>
          (\<forall>g\<in>set (butlast groups). flush_condition (concat g)) \<and>
          (\<forall>g\<in>set groups. \<forall>k. 0 < k \<and> k < length g
             \<longrightarrow> \<not> flush_condition (concat (take k g)))"
    by (intro exI [of _ groups]) (simp add: content_sweep_def)
next
  assume a: "get_briefing cat s = Some b \<and> b \<noteq> [] \<and> rs_websocket_manager s \<and>
    rs_job_id s = Some j \<and> j \<noteq> [] \<and> strip t \<noteq> []"
  define run where "run = editor_run s reference_text (Inr t) (Inr ex_stream)"
  define g where "g = \<lparr>yields = [as_yielded (fst run)], graph_updates = snd run, raised = None\<rparr>"
  define upd where "upd = snd (process_research now j data g job_status)"
  define seen where "seen = observed ws (snd (publish_all (\<lambda>c. Sent) upd (Map.empty(j \<mapsto> [ws]))))"
  from a have h: "get_briefing cat s = Some b" "b \<noteq> []" "rs_websocket_manager s"
    "rs_job_id s = Some j" "j \<noteq> []" "strip t \<noteq> []"
    by simp_all
  note sc = scenario_editor_run [OF h, of reference_text, folded run_def]
  have merged: "report_content (fold (\<lambda>s state. state_update state s) (yields g) empty_state)
      = Some (ascii ''Section 1.'')"
    by (simp add: g_def as_yielded_def state_update_def empty_state_def report_content_def sc(2,3)
          ascii_def)
  have "raised g = None" by (simp add: g_def)
  from process_research_with_report [OF this merged, of now j data job_status]
  have upd: "upd = (j, status_update status_processing (Some (ascii ''Starting research'')) None None)
       # snd run @
     [(j, status_update status_completed (Some (ascii ''Recherche termin'' @ [0xE9] @ ascii ''e avec succ'' @ [0xE8] @ ascii ''s'')) None
            (Some [((ascii ''report''), JStr (ascii ''Section 1.'')),
                   ((ascii ''company''), JStr (rq_company data))]))]"
    by (simp add: upd_def g_def ascii_def)
  have all_j: "\<forall>u\<in>set upd. fst u = j"
    unfolding upd sc(1) by simp
  have seen: "seen = map snd upd"
    unfolding seen_def
    by (rule publish_all_observed [where S = "[ws]" and j = j]) (simp_all add: all_j)
  have chunks: "filter (\<lambda>m. upd_status (msg_data m) = status_report_chunk) seen
          = [report_chunk (ascii ''Section 1.'' @ [10])]"
    unfolding seen upd sc(1)
    using status_chunk_distinct
    by (simp add: status_update_def editor_step_def report_chunk_def)
  have final: "last seen = status_update status_completed (Some (ascii ''Recherche termin'' @ [0xE9] @ ascii ''e avec succ'' @ [0xE8] @ ascii ''s'')) None
                      (Some [((ascii ''report''), JStr (ascii ''Section 1.'')),
                             ((ascii ''company''), JStr (rq_company data))])"
    unfolding seen upd by simp
  from seen chunks final sc(2)
  show "let run = editor_run s reference_text (Inr t) (Inr ex_stream);
         upd = snd (process_research now j data
                      \<lparr>yields = [as_yielded (fst run)], graph_updates = snd run, raised = None\<rparr>
                      job_status);
         seen = observed ws (snd (publish_all (\<lambda>c. Sent) upd (Map.empty(j \<mapsto> [ws]))))
     in seen = map snd upd \<and>
        filter (\<lambda>m. upd_status (msg_data m) = status_report_chunk) seen
          = [report_chunk (ascii ''Section 1.'' @ [10])] \<and>
        last seen = status_update status_completed (Some (ascii ''Recherche termin'' @ [0xE9] @ ascii ''e avec succ'' @ [0xE8] @ ascii ''s'')) None
                      (Some [((ascii ''report''), JStr (ascii ''Section 1.'')),
                             ((ascii ''company''), JStr (rq_company data))]) \<and>
        rs_report (fst run) = Some (ascii ''Section 1.'')"
    unfolding Let_def seen_def upd_def g_def run_def by simp
qed

text \<open>
  The scenario for the job of the examples, with one subscriber.
\<close>

theorem streamed_cleanup_flushes_chunks_witness:
  "filter (\<lambda>m. upd_status (msg_data m) = status_report_chunk)
     (observed (1::nat) (snd (publish_all (\<lambda>c. Sent)
        (snd (process_research ex_now ex_job ex_request
                \<lparr>yields = [as_yielded (fst (editor_run ex_briefed_state [] (Inr (ascii ''# Draft''))
                                              (Inr ex_stream)))],
                 graph_updates = snd (editor_run ex_briefed_state [] (Inr (ascii ''# Draft''))
                                        (Inr ex_stream)),
                 raised = None\<rparr> Map.empty))
        (Map.empty(ex_job \<mapsto> [1])))))
   = [report_chunk (ascii ''Section 1.'' @ [10])] \<and>
   rs_report (fst (editor_run ex_briefed_state [] (Inr (ascii ''# Draft'')) (Inr ex_stream)))
     = Some (ascii ''Section 1.'')"
proof -
  have h: "get_briefing Company ex_briefed_state = Some (ascii ''* Acme makes anvils.'') \<and>
      ascii ''* Acme makes anvils.'' \<noteq> [] \<and> rs_websocket_manager ex_briefed_state \<and>
      rs_job_id ex_briefed_state = Some ex_job \<and> ex_job \<noteq> [] \<and> strip (ascii ''# Draft'') \<noteq> []"
    by (simp add: ex_briefed_state_def ex_input_state_def ex_job_def strip_def isspace_def ascii_def)
  note r = streamed_cleanup_flushes_chunks
         [of True "Some ex_job" "[]" "[]" None "[]" Company ex_briefed_state
             "ascii ''* Acme makes anvils.''" ex_job "ascii ''# Draft''" "[]" ex_now ex_request
             Map.empty "1::nat", THEN conjunct2, THEN mp, OF h, unfolded Let_def]
  from r show ?thesis
    by (elim conjE) (intro conjI, assumption+)
qed

text \<open>
  Claim C3 as stated fails: in its scenario \<open>content_sweep\<close> sends one chunk update,
  not two.
\<close>

theorem scenario_yields_one_chunk_event:
  "snd (content_sweep True (Some ex_job) (ascii ''# Draft'') (Inr ex_stream))
     = [(ex_job, report_chunk (ascii ''Section 1.'' @ [10]))] \<and>
   length (snd (content_sweep True (Some ex_job) (ascii ''# Draft'') (Inr ex_stream))) \<noteq> 2 \<and>
   fst (content_sweep True (Some ex_job) (ascii ''# Draft'') (Inr ex_stream)) = ascii ''Section 1.''"
proof -
  have "ex_job \<noteq> []" by (simp add: ex_job_def ascii_def)
  from scenario_sweep [OF this, of "ascii ''# Draft''"] show ?thesis by simp
qed


section \<open>Degradation of the editor on generative failures\<close>

lemma strip_nonblank: "strip s \<noteq> [] \<Longrightarrow> strip (strip s) \<noteq> []"
  by (simp add: strip_idem)

lemma strip_append_nonblank: "strip s \<noteq> [] \<Longrightarrow> strip (strip s @ ys) \<noteq> []"
proof -
  assume "strip s \<noteq> []"
  then have "strip (strip s) \<noteq> []" by (rule strip_nonblank)
  then obtain c where "c \<in> set (strip s)" "\<not> isspace c"
    by (auto simp: strip_eq_Nil_iff)
  then show ?thesis by (auto simp: strip_eq_Nil_iff)
qed

lemma compile_content_raises:
  "compile_content briefings reference_text (Inl e) = strip (join ([0xA, 0xA]) (map snd briefings))"
  by (simp add: compile_content_def)

lemma content_sweep_raises: "content_sweep wm job content (Inl e) = (strip content, [])"
  by (simp add: content_sweep_def)

lemma sweep_loop_stream_raises:
  "fst (sweep_loop wm job (map (\<lambda>t. Chunk None (Some t)) texts @ StreamRaises e # rest) acc buf ev)
     = Inl e"
proof (induction texts arbitrary: acc buf ev)
  case Nil
  then show ?case by simp
next
  case (Cons t texts)
  then show ?case by (cases t) simp_all
qed

lemma content_sweep_stream_raises:
  "fst (content_sweep wm job content
          (Inr (map (\<lambda>t. Chunk None (Some t)) texts @ StreamRaises e # rest))) = strip content"
  using sweep_loop_stream_raises [of wm job texts e rest "[]" "[]" "[]"]
  by (cases "sweep_loop wm job (map (\<lambda>t. Chunk None (Some t)) texts @ StreamRaises e # rest) [] [] []")
     (simp add: content_sweep_def)

lemma compile_content_nonblank:
  "strip t \<noteq> [] \<Longrightarrow> strip (compile_content ib reference_text (Inr t)) \<noteq> []"
  by (simp add: compile_content_def Let_def strip_nonblank strip_append_nonblank)

lemma edit_report_sweep_raises:
  assumes "strip (compile_content ib reference_text cr) \<noteq> []"
  shows "rs_report (fst (edit_report s ib company reference_text cr (Inl e)))
           = Some (strip (compile_content ib reference_text cr))"
proof -
  from assms have "compile_content ib reference_text cr \<noteq> []"
    by (auto simp: strip_eq_Nil_iff)
  with assms show ?thesis
    by (simp add: edit_report_def Let_def content_sweep_raises strip_idem)
qed

lemma editor_run_sweep_raises:
  assumes "get_briefing cat s = Some b" and "b \<noteq> []"
    and "\<And>ib. b \<in> set (map snd ib) \<Longrightarrow> strip (compile_content ib reference_text cr) \<noteq> []"
  shows "\<exists>r. rs_report (fst (editor_run s reference_text cr (Inl e))) = Some r \<and> r \<noteq> []"
proof -
  from compile_briefings_found [OF assms(1,2), of reference_text cr "Inl e"]
  obtain ib msg where found: "b \<in> set (map snd ib)" and
    cb: "fst (compile_briefings s reference_text cr (Inl e)) =
             (fst (edit_report s ib
                      (case rs_company s of None \<Rightarrow> (ascii ''Entreprise inconnue'') | Some c \<Rightarrow> c)
                      reference_text cr (Inl e)))
                \<lparr>rs_messages :=
                   rs_messages (fst (edit_report s ib
                      (case rs_company s of None \<Rightarrow> (ascii ''Entreprise inconnue'') | Some c \<Rightarrow> c)
                      reference_text cr (Inl e))) @ [join ([0xA]) msg]\<rparr>"
    by force
  from assms(3) [OF found] have nb: "strip (compile_content ib reference_text cr) \<noteq> []" .
  from edit_report_sweep_raises [OF nb] cb
  have "rs_report (fst (compile_briefings s reference_text cr (Inl e)))
      = Some (strip (compile_content ib reference_text cr))"
    by simp
  with nb show ?thesis
    by (cases "compile_briefings s reference_text cr (Inl e)") (auto simp: editor_run_def)
qed

lemma stored_briefing_nonblank:
  assumes "get_briefing cat (fst (create_briefings state gen)) = Some b" and "b \<noteq> []"
  shows "strip b \<noteq> []"
proof -
  from assms create_briefings_briefing [of cat state gen]
  obtain raw where "b = strip raw"
    by (auto split: if_splits sum.splits)
  with assms(2) show ?thesis by (simp add: strip_idem)
qed

text \<open>
  Claim C10. If the compile call raises, \<open>compile_content\<close> returns the briefings
  joined by blank lines and stripped; if the clean-up call raises, when it is made or
  while its stream is read, \<open>content_sweep\<close> returns its input stripped. Hence, when
  the briefing stage has stored a non-empty briefing, the editor still stores a non-empty
  report when both calls raise, and also when the compile call returns a non-blank text
  and the clean-up call raises.
\<close>

theorem editor_degrades_on_generative_failure:
  "compile_content briefings reference_text (Inl e1)
     = strip (join ([0xA, 0xA]) (map snd briefings)) \<and>
   content_sweep wm job content (Inl e2) = (strip content, []) \<and>
   fst (content_sweep wm job content
          (Inr (map (\<lambda>t. Chunk None (Some t)) texts @ StreamRaises e2 # rest))) = strip content \<and>
   (get_briefing cat (fst (create_briefings state gen)) = Some b \<and> b \<noteq> [] \<longrightarrow>
      (\<exists>r. rs_report (fst (editor_run (fst (create_briefings state gen)) reference_text
                                (Inl e1) (Inl e2))) = Some r \<and> r \<noteq> []) \<and>
      (strip t \<noteq> [] \<longrightarrow>
         (\<exists>r. rs_report (fst (editor_run (fst (create_briefings state gen)) reference_text
                                   (Inr t) (Inl e2))) = Some r \<and> r \<noteq> [])))"
proof (intro conjI impI)
  show "compile_content briefings reference_text (Inl e1)
     = strip (join ([0xA, 0xA]) (map snd briefings))"
    by (rule compile_content_raises)
  show "content_sweep wm job content (Inl e2) = (strip content, [])"
    by (rule content_sweep_raises)
  show "fst (content_sweep wm job content
          (Inr (map (\<lambda>t. Chunk None (Some t)) texts @ StreamRaises e2 # rest))) = strip content"
    by (rule content_sweep_stream_raises)
next
  assume a: "get_briefing cat (fst (create_briefings state gen)) = Some b \<and> b \<noteq> []"
  then have b: "get_briefing cat (fst (create_briefings state gen)) = Some b" "b \<noteq> []"
    by simp_all
  from stored_briefing_nonblank [OF b] have nb: "strip b \<noteq> []" .
  have "strip (compile_content ib reference_text (Inl e1)) \<noteq> []" if "b \<in> set (map snd ib)" for ib
    using strip_join_nonempty [OF that nb, of "[10, 10]"]
    by (simp add: compile_content_raises strip_idem)
  from editor_run_sweep_raises [OF b this]
  show "\<exists>r. rs_report (fst (editor_run (fst (create_briefings state gen)) reference_text
                                (Inl e1) (Inl e2))) = Some r \<and> r \<noteq> []"
    by blast
next
  assume a: "get_briefing cat (fst (create_briefings state gen)) = Some b \<and> b \<noteq> []"
    and t: "strip t \<noteq> []"
  from a have b: "get_briefing cat (fst (create_briefings state gen)) = Some b" "b \<noteq> []"
    by simp_all
  have "strip (compile_content ib reference_text (Inr t)) \<noteq> []" for ib
    using t by (rule compile_content_nonblank)
  from editor_run_sweep_raises [OF b this]
  show "\<exists>r. rs_report (fst (editor_run (fst (create_briefings state gen)) reference_text
                                (Inr t) (Inl e2))) = Some r \<and> r \<noteq> []"
    by blast
qed

text \<open>
  The job of the examples with its news briefing: a report is stored although the
  generative calls of the editor raise.
\<close>

theorem editor_degrades_on_generative_failure_witness:
  "(\<exists>r. rs_report (fst (editor_run (fst (create_briefings ex_curated_state ex_gen)) []
                           (Inl (ascii ''overloaded'')) (Inl (ascii ''overloaded'')))) = Some r \<and>
        r \<noteq> []) \<and>
   (\<exists>r. rs_report (fst (editor_run (fst (create_briefings ex_curated_state ex_gen)) []
                           (Inr (ascii ''# Draft'')) (Inl (ascii ''overloaded'')))) = Some r \<and>
        r \<noteq> [])"
proof -
  have s: "strip (ascii '' * Acme opens a plant. '') = ascii ''* Acme opens a plant.''"
    by (simp add: strip_def ascii_def isspace_def)
  have h: "get_briefing News (fst (create_briefings ex_curated_state ex_gen))
             = Some (ascii ''* Acme opens a plant.'') \<and> ascii ''* Acme opens a plant.'' \<noteq> []"
    using s by (simp add: create_briefings_briefing ex_curated_state_def ex_input_state_def)
       (simp add: ascii_def)
  have t: "strip (ascii ''# Draft'') \<noteq> []"
    by (simp add: strip_def ascii_def isspace_def)
  note r = editor_degrades_on_generative_failure
         [of "[]" "[]" "ascii ''overloaded''" True None "[]" "ascii ''overloaded''" "[]" "[]" News
             ex_curated_state ex_gen "ascii ''* Acme opens a plant.''" "ascii ''# Draft''",
          THEN conjunct2, THEN conjunct2, THEN conjunct2, THEN mp, OF h]
  from r t show ?thesis by blast
qed

end
